theory Spec2Isabelle
  imports Complex_Main
begin

section \<open>Values and enumerations\<close>

text \<open>
  A JavaScript number is either \<open>NaN\<close> or a value; values are represented by the real
  they denote. Nothing below depends on rounding: the only arithmetic the modelled code
  performs is the division by 100 of a percentage and the two additions of the
  computed-geometry accessors.
\<close>

datatype number = NaN | Num real

fun isNaN :: "number \<Rightarrow> bool" where
  "isNaN NaN = True"
| "isNaN (Num _) = False"

fun js_add :: "number \<Rightarrow> number \<Rightarrow> number" where
  "js_add (Num a) (Num b) = Num (a + b)"
| "js_add _ _ = NaN"

fun js_div :: "number \<Rightarrow> real \<Rightarrow> number" where
  "js_div (Num a) d = Num (a / d)"
| "js_div NaN d = NaN"

text \<open>
  The enumerations of \<open>enums.ts\<close>, which the source files use by member name only.
  Every constructor carries the name of its enumeration.
\<close>

datatype Edge =
  EdgeLeft | EdgeTop | EdgeRight | EdgeBottom | EdgeStart | EdgeEnd
  | EdgeHorizontal | EdgeVertical | EdgeAll

datatype Direction = DirectionInherit | DirectionLTR | DirectionRTL

datatype FlexDirection =
  FlexDirectionColumn | FlexDirectionColumnReverse | FlexDirectionRow | FlexDirectionRowReverse

datatype PositionType = PositionTypeStatic | PositionTypeRelative | PositionTypeAbsolute

datatype BoxSizing = BoxSizingBorderBox | BoxSizingContentBox

datatype Unit = UnitUndefined | UnitPoint | UnitPercent | UnitAuto

datatype Align =
  AlignAuto | AlignFlexStart | AlignCenter | AlignFlexEnd | AlignStretch | AlignBaseline
  | AlignSpaceBetween | AlignSpaceAround | AlignSpaceEvenly






text \<open>The \<open>Value\<close> type of the getters: \<open>{ unit, value }\<close>.\<close>

record Value =
  vunit :: Unit
  vvalue :: number

subsection \<open>What a caller can pass for a dimension\<close>

text \<open>
  A string is represented by what the parsers observe of it: whether it is \<open>"auto"\<close>,
  whether it ends with a percent sign, and what \<open>parseFloat\<close> reads from it.
  \<open>StrPercent n\<close> is a string ending in \<open>%\<close> that \<open>parseFloat\<close> reads as \<open>n\<close>
  (the template \<open>`${n}%`\<close>); \<open>StrOther n\<close> is any other string, read as \<open>n\<close>
  (\<open>NaN\<close> when it does not start with a number, as for \<open>"Auto"\<close>).
  \<open>JsObject\<close> is a plain object, such as \<open>{ Length: 10 }\<close>; \<open>undefined\<close> is \<open>None\<close>.
\<close>

datatype jsstring = StrAuto | StrPercent number | StrOther number

datatype jsvalue = JsNumber number | JsString jsstring | JsObject

subsection \<open>The engine's style values\<close>

text \<open>
  The engine's length-or-percentage-or-auto: \<open>"Auto"\<close>, \<open>{ Length: n }\<close>, \<open>{ Percent: p }\<close>.
\<close>

datatype dimension = Auto | Length number | Percent number

record rect =
  left :: dimension
  right :: dimension
  top_side :: dimension
  bottom_side :: dimension

datatype TaffyFlexDirection = TaffyRow | TaffyColumn | TaffyRowReverse | TaffyColumnReverse

datatype TaffyPosition = TaffyRelative | TaffyAbsolute

datatype TaffyAlignContent =
  TaffyFlexStart | TaffyCenter | TaffyFlexEnd | TaffyStretch
  | TaffySpaceBetween | TaffySpaceAround | TaffySpaceEvenly

datatype TaffyDisplay = TaffyDisplayFlex | TaffyDisplayNone

datatype TaffyFlexWrap = TaffyNoWrap | TaffyWrap | TaffyWrapReverse

datatype TaffyAlignItems =
  TaffyItemsFlexStart | TaffyItemsCenter | TaffyItemsFlexEnd | TaffyItemsStretch
  | TaffyItemsBaseline

datatype TaffyAlignSelf =
  TaffySelfAuto | TaffySelfFlexStart | TaffySelfCenter | TaffySelfFlexEnd | TaffySelfStretch
  | TaffySelfBaseline

datatype TaffyJustifyContent =
  TaffyJustifyFlexStart | TaffyJustifyCenter | TaffyJustifyFlexEnd
  | TaffyJustifySpaceBetween | TaffyJustifySpaceAround | TaffyJustifySpaceEvenly

datatype TaffyOverflow =
  TaffyOverflowVisible | TaffyOverflowHidden | TaffyOverflowScroll | TaffyOverflowAuto

datatype TaffyBoxSizing = TaffyBorderBox | TaffyContentBox

text \<open>\<open>{ width, height }\<close> and \<open>{ x, y }\<close>.\<close>

record dimensions =
  dim_width :: dimension
  dim_height :: dimension

record overflow_xy =
  overflow_x :: TaffyOverflow
  overflow_y :: TaffyOverflow

text \<open>
  The fields of the engine's style object that the operations of \<open>Node\<close> write. A
  field that a fresh style may lack is an option.
\<close>

record taffy_style =
  display :: TaffyDisplay
  flex_direction :: TaffyFlexDirection
  flex_wrap :: TaffyFlexWrap
  align_items :: "TaffyAlignItems option"
  align_self :: "TaffyAlignSelf option"
  align_content :: "TaffyAlignContent option"
  justify_content :: "TaffyJustifyContent option"
  flex_grow :: number
  flex_shrink :: number
  flex_basis :: dimension
  overflow :: overflow_xy
  aspect_ratio :: "number option"
  gap :: "dimensions option"
  style_size :: dimensions
  min_size :: dimensions
  max_size :: dimensions
  box_sizing :: TaffyBoxSizing
  position :: TaffyPosition
  inset :: rect
  margin :: rect
  padding :: rect
  border :: rect

section \<open>mapping.ts\<close>

fun fromYogaFlexDirection :: "FlexDirection \<Rightarrow> TaffyFlexDirection" where
  "fromYogaFlexDirection FlexDirectionRow = TaffyRow"
| "fromYogaFlexDirection FlexDirectionColumn = TaffyColumn"
| "fromYogaFlexDirection FlexDirectionRowReverse = TaffyRowReverse"
| "fromYogaFlexDirection FlexDirectionColumnReverse = TaffyColumnReverse"





fun fromYogaAlignContent :: "Align \<Rightarrow> TaffyAlignContent" where
  "fromYogaAlignContent AlignFlexStart = TaffyFlexStart"
| "fromYogaAlignContent AlignCenter = TaffyCenter"
| "fromYogaAlignContent AlignFlexEnd = TaffyFlexEnd"
| "fromYogaAlignContent AlignStretch = TaffyStretch"
| "fromYogaAlignContent AlignSpaceBetween = TaffySpaceBetween"
| "fromYogaAlignContent AlignSpaceAround = TaffySpaceAround"
| "fromYogaAlignContent AlignSpaceEvenly = TaffySpaceEvenly"
| "fromYogaAlignContent _ = TaffyStretch"


fun fromYogaPositionType :: "PositionType \<Rightarrow> TaffyPosition" where
  "fromYogaPositionType PositionTypeRelative = TaffyRelative"
| "fromYogaPositionType PositionTypeAbsolute = TaffyAbsolute"
| "fromYogaPositionType PositionTypeStatic = TaffyRelative"



section \<open>The canonical style cache\<close>

text \<open>
  An inset entry is either the lower-case \<open>"auto"\<close> the cache starts with or a value that
  \<open>parseValue\<close> produced; the keys \<open>Horizontal\<close>, \<open>Vertical\<close> and \<open>All\<close> are never
  written and stay \<open>undefined\<close>.
\<close>

datatype inset_entry = InsetAutoString | InsetParsed dimension

record StyleCache =
  sc_position :: PositionType
  flexDirection :: FlexDirection
  boxSizing :: BoxSizing
  insets :: "Edge \<Rightarrow> inset_entry option"
  borders :: "Edge \<Rightarrow> number option"
  margins :: "Edge \<Rightarrow> jsvalue option"
  paddings :: "Edge \<Rightarrow> jsvalue option"
  lastDirection :: Direction
  direction :: Direction

definition initial_insets :: "Edge \<Rightarrow> inset_entry option" where
  "initial_insets e =
     (if e = EdgeHorizontal \<or> e = EdgeVertical \<or> e = EdgeAll then None
      else Some InsetAutoString)"

definition initial_styleCache :: StyleCache where
  "initial_styleCache =
     \<lparr> sc_position = PositionTypeRelative,
       flexDirection = FlexDirectionColumn,
       boxSizing = BoxSizingBorderBox,
       insets = initial_insets,
       borders = (\<lambda>e. None),
       margins = (\<lambda>e. None),
       paddings = (\<lambda>e. None),
       lastDirection = DirectionLTR,
       direction = DirectionInherit \<rparr>"

section \<open>Parsing\<close>

fun parseValue :: "jsvalue \<Rightarrow> dimension" where
  "parseValue (JsString StrAuto) = Auto"
| "parseValue (JsString (StrPercent n)) = Percent (js_div n 100)"
| "parseValue (JsString (StrOther n)) = (if \<not> isNaN n then Length n else Auto)"
| "parseValue (JsNumber n) = Length n"
| "parseValue JsObject = Auto"


definition undefinedValue :: Value where
  "undefinedValue = \<lparr> vunit = UnitUndefined, vvalue = NaN \<rparr>"

fun parseToValue :: "jsvalue option \<Rightarrow> Value" where
  "parseToValue None = undefinedValue"
| "parseToValue (Some (JsString StrAuto)) = \<lparr> vunit = UnitAuto, vvalue = NaN \<rparr>"
| "parseToValue (Some (JsNumber n)) = \<lparr> vunit = UnitPoint, vvalue = n \<rparr>"
| "parseToValue (Some (JsString (StrPercent n))) = \<lparr> vunit = UnitPercent, vvalue = n \<rparr>"
| "parseToValue (Some (JsString (StrOther n))) =
     (if \<not> isNaN n then \<lparr> vunit = UnitPoint, vvalue = n \<rparr> else undefinedValue)"
| "parseToValue (Some JsObject) = undefinedValue"

text \<open>
  An inset entry as the JavaScript value it is: \<open>"auto"\<close>, the string \<open>"Auto"\<close> (which is
  not \<open>"auto"\<close>, has no percent sign and reads as \<open>NaN\<close>), or an object.
\<close>

fun inset_jsvalue :: "inset_entry \<Rightarrow> jsvalue" where
  "inset_jsvalue InsetAutoString = JsString StrAuto"
| "inset_jsvalue (InsetParsed Auto) = JsString (StrOther NaN)"
| "inset_jsvalue (InsetParsed (Length n)) = JsObject"
| "inset_jsvalue (InsetParsed (Percent n)) = JsObject"

section \<open>Style Resolver\<close>

subsection \<open>Insets\<close>

text \<open>
  \<open>resolveInsets\<close>: \<open>get\<close> replaces a missing entry by \<open>"auto"\<close>, \<open>parser\<close> turns
  \<open>"auto"\<close> into the engine's \<open>"Auto"\<close>.
\<close>

definition inset_get :: "StyleCache \<Rightarrow> Edge \<Rightarrow> inset_entry" where
  "inset_get c e = (case insets c e of None \<Rightarrow> InsetAutoString | Some v \<Rightarrow> v)"

fun inset_parser :: "inset_entry \<Rightarrow> dimension" where
  "inset_parser InsetAutoString = Auto"
| "inset_parser (InsetParsed d) = d"

definition resolveInsets :: "StyleCache \<Rightarrow> rect" where
  "resolveInsets c =
     (let isRTL = (lastDirection c = DirectionRTL);
          l = inset_parser (inset_get c EdgeLeft);
          r = inset_parser (inset_get c EdgeRight);
          t = inset_parser (inset_get c EdgeTop);
          b = inset_parser (inset_get c EdgeBottom);
          s = inset_parser (inset_get c EdgeStart);
          e = inset_parser (inset_get c EdgeEnd);
          left1 = (if s \<noteq> Auto \<and> \<not> isRTL then s else l);
          right1 = (if s \<noteq> Auto \<and> isRTL then s else r);
          left2 = (if e \<noteq> Auto \<and> isRTL then e else left1);
          right2 = (if e \<noteq> Auto \<and> \<not> isRTL then e else right1)
      in \<lparr> left = left2, right = right2, top_side = t, bottom_side = b \<rparr>)"

definition autoRect :: rect where
  "autoRect = \<lparr> left = Auto, right = Auto, top_side = Auto, bottom_side = Auto \<rparr>"

definition zeroRect :: rect where
  "zeroRect =
     \<lparr> left = Length (Num 0), right = Length (Num 0),
       top_side = Length (Num 0), bottom_side = Length (Num 0) \<rparr>"

subsection \<open>Margins and paddings\<close>

text \<open>
  The \<open>setPhysical\<close> closure of \<open>resolveMarginsToTaffy\<close> and \<open>resolvePaddingsToTaffy\<close>:
  an \<open>undefined\<close> value leaves \<open>current\<close> as it is.
\<close>

definition setPhysical :: "Edge \<Rightarrow> jsvalue option \<Rightarrow> rect \<Rightarrow> rect" where
  "setPhysical edge v current =
     (case v of
        None \<Rightarrow> current
      | Some x \<Rightarrow>
          (let parsed = parseValue x in
           if edge = EdgeLeft then current\<lparr> left := parsed \<rparr>
           else if edge = EdgeRight then current\<lparr> right := parsed \<rparr>
           else if edge = EdgeTop then current\<lparr> top_side := parsed \<rparr>
           else if edge = EdgeBottom then current\<lparr> bottom_side := parsed \<rparr>
           else current))"

text \<open>
  The body of the two updaters, which differ in the rectangle they start from only:
  compound edges first, then the logical edges by direction, then the physical edges.
\<close>

definition resolveEdges :: "rect \<Rightarrow> bool \<Rightarrow> (Edge \<Rightarrow> jsvalue option) \<Rightarrow> rect" where
  "resolveEdges start isRTL m =
     (let c1 = (if m EdgeAll \<noteq> None
                then setPhysical EdgeBottom (m EdgeAll) (setPhysical EdgeTop (m EdgeAll)
                       (setPhysical EdgeRight (m EdgeAll) (setPhysical EdgeLeft (m EdgeAll) start)))
                else start);
          c2 = (if m EdgeHorizontal \<noteq> None
                then setPhysical EdgeRight (m EdgeHorizontal)
                       (setPhysical EdgeLeft (m EdgeHorizontal) c1)
                else c1);
          c3 = (if m EdgeVertical \<noteq> None
                then setPhysical EdgeBottom (m EdgeVertical)
                       (setPhysical EdgeTop (m EdgeVertical) c2)
                else c2);
          c4 = (if m EdgeStart \<noteq> None
                then (if isRTL then setPhysical EdgeRight (m EdgeStart) c3
                      else setPhysical EdgeLeft (m EdgeStart) c3)
                else c3);
          c5 = (if m EdgeEnd \<noteq> None
                then (if isRTL then setPhysical EdgeLeft (m EdgeEnd) c4
                      else setPhysical EdgeRight (m EdgeEnd) c4)
                else c4)
      in setPhysical EdgeBottom (m EdgeBottom) (setPhysical EdgeTop (m EdgeTop)
           (setPhysical EdgeRight (m EdgeRight) (setPhysical EdgeLeft (m EdgeLeft) c5))))"

definition resolveMargins :: "StyleCache \<Rightarrow> rect" where
  "resolveMargins c = resolveEdges autoRect (lastDirection c = DirectionRTL) (margins c)"

definition resolvePaddings :: "StyleCache \<Rightarrow> rect" where
  "resolvePaddings c = resolveEdges zeroRect (lastDirection c = DirectionRTL) (paddings c)"

subsection \<open>Borders\<close>

definition setPhysicalBorder :: "Edge \<Rightarrow> number option \<Rightarrow> rect \<Rightarrow> rect" where
  "setPhysicalBorder edge v current =
     (case v of
        None \<Rightarrow> current
      | Some x \<Rightarrow>
          (if edge = EdgeLeft then current\<lparr> left := Length x \<rparr>
           else if edge = EdgeRight then current\<lparr> right := Length x \<rparr>
           else if edge = EdgeTop then current\<lparr> top_side := Length x \<rparr>
           else if edge = EdgeBottom then current\<lparr> bottom_side := Length x \<rparr>
           else current))"

definition resolveBorders :: "StyleCache \<Rightarrow> rect" where
  "resolveBorders c =
     (let isRTL = (lastDirection c = DirectionRTL);
          m = borders c;
          c1 = (if m EdgeAll \<noteq> None
                then setPhysicalBorder EdgeBottom (m EdgeAll) (setPhysicalBorder EdgeTop (m EdgeAll)
                       (setPhysicalBorder EdgeRight (m EdgeAll)
                          (setPhysicalBorder EdgeLeft (m EdgeAll) zeroRect)))
                else zeroRect);
          c2 = (if m EdgeHorizontal \<noteq> None
                then setPhysicalBorder EdgeRight (m EdgeHorizontal)
                       (setPhysicalBorder EdgeLeft (m EdgeHorizontal) c1)
                else c1);
          c3 = (if m EdgeVertical \<noteq> None
                then setPhysicalBorder EdgeBottom (m EdgeVertical)
                       (setPhysicalBorder EdgeTop (m EdgeVertical) c2)
                else c2);
          c4 = (if m EdgeStart \<noteq> None
                then (if isRTL then setPhysicalBorder EdgeRight (m EdgeStart) c3
                      else setPhysicalBorder EdgeLeft (m EdgeStart) c3)
                else c3);
          c5 = (if m EdgeEnd \<noteq> None
                then (if isRTL then setPhysicalBorder EdgeLeft (m EdgeEnd) c4
                      else setPhysicalBorder EdgeRight (m EdgeEnd) c4)
                else c4)
      in setPhysicalBorder EdgeBottom (m EdgeBottom) (setPhysicalBorder EdgeTop (m EdgeTop)
           (setPhysicalBorder EdgeRight (m EdgeRight) (setPhysicalBorder EdgeLeft (m EdgeLeft) c5))))"

section \<open>The engine\<close>

text \<open>
  The layout engine is an external library. The model keeps of its tree what the wrapper
  reads back: which handles are live and the style stored for each, the child list and the
  parent of each handle, the last computed layout and the engine's own dirty flag. A call
  that names a handle that is not live fails. Storing a style, inserting a child and
  \<open>markDirty\<close> mark a node dirty in the engine, and with it every node up the chain of
  its engine-side parents. The layout computation itself is a parameter, see \<open>engine\<close>.
\<close>

type_synonym handle = nat

datatype error = InvalidNode | ChildIndexOutOfBounds | ComputeFailed

record layout =
  location_x :: number
  location_y :: number
  size_width :: number
  size_height :: number

record TaffyTree =
  styles :: "handle \<rightharpoonup> taffy_style"
  tchildren :: "handle \<Rightarrow> handle list"
  tparent :: "handle \<Rightarrow> handle option"
  layouts :: "handle \<Rightarrow> layout"
  dirtyFlags :: "handle \<Rightarrow> bool"
  nextId :: handle

definition zeroLayout :: layout where
  "zeroLayout =
     \<lparr> location_x = Num 0, location_y = Num 0, size_width = Num 0, size_height = Num 0 \<rparr>"

text \<open>
  The nodes that marking \<open>h\<close> dirty reaches: \<open>h\<close>, its parent, and so on upwards. The
  walk takes as many steps as handles have been allocated, which is the whole chain when
  the parent links are those that \<open>insertChildAtIndex\<close> made.
\<close>

fun markedFrom :: "nat \<Rightarrow> (handle \<Rightarrow> handle option) \<Rightarrow> handle \<Rightarrow> handle list" where
  "markedFrom 0 par h = [h]"
| "markedFrom (Suc k) par h =
     h # (case par h of None \<Rightarrow> [] | Some p \<Rightarrow> markedFrom k par p)"

definition mark_dirty :: "TaffyTree \<Rightarrow> handle \<Rightarrow> TaffyTree" where
  "mark_dirty t h =
     t\<lparr> dirtyFlags :=
          (\<lambda>n. n \<in> set (markedFrom (nextId t) (tparent t) h) \<or> dirtyFlags t n) \<rparr>"

definition newLeaf :: "TaffyTree \<Rightarrow> taffy_style \<Rightarrow> handle \<times> TaffyTree" where
  "newLeaf t s =
     (nextId t,
      t\<lparr> styles := (styles t)(nextId t \<mapsto> s),
         tchildren := (tchildren t)(nextId t := []),
         tparent := (tparent t)(nextId t := None),
         layouts := (layouts t)(nextId t := zeroLayout),
         dirtyFlags := (dirtyFlags t)(nextId t := True),
         nextId := Suc (nextId t) \<rparr>)"

definition getStyle :: "TaffyTree \<Rightarrow> handle \<Rightarrow> error + taffy_style" where
  "getStyle t h = (case styles t h of None \<Rightarrow> Inl InvalidNode | Some s \<Rightarrow> Inr s)"

definition setStyle :: "TaffyTree \<Rightarrow> handle \<Rightarrow> taffy_style \<Rightarrow> error + TaffyTree" where
  "setStyle t h s =
     (if h \<in> dom (styles t) then Inr (mark_dirty (t\<lparr> styles := (styles t)(h \<mapsto> s) \<rparr>) h)
      else Inl InvalidNode)"

definition getLayout :: "TaffyTree \<Rightarrow> handle \<Rightarrow> error + layout" where
  "getLayout t h = (if h \<in> dom (styles t) then Inr (layouts t h) else Inl InvalidNode)"

definition tree_remove :: "TaffyTree \<Rightarrow> handle \<Rightarrow> error + TaffyTree" where
  "tree_remove t h =
     (if h \<in> dom (styles t)
      then Inr (t\<lparr> styles := (styles t)(h := None),
                   tchildren := (\<lambda>p. if p = h then [] else removeAll h (tchildren t p)),
                   tparent := (\<lambda>c. if c = h \<or> tparent t c = Some h then None else tparent t c) \<rparr>)
      else Inl InvalidNode)"


definition tree_dirty :: "TaffyTree \<Rightarrow> handle \<Rightarrow> error + bool" where
  "tree_dirty t h = (if h \<in> dom (styles t) then Inr (dirtyFlags t h) else Inl InvalidNode)"

definition insertChildAtIndex :: "TaffyTree \<Rightarrow> handle \<Rightarrow> nat \<Rightarrow> handle \<Rightarrow> error + TaffyTree" where
  "insertChildAtIndex t p i c =
     (if p \<in> dom (styles t) \<and> c \<in> dom (styles t)
      then (if i > length (tchildren t p) then Inl ChildIndexOutOfBounds
            else Inr (mark_dirty
                        (t\<lparr> tchildren :=
                              (tchildren t)(p := take i (tchildren t p) @ c # drop i (tchildren t p)),
                            tparent := (tparent t)(c \<mapsto> p) \<rparr>)
                        p))
      else Inl InvalidNode)"

definition setNodeContext :: "TaffyTree \<Rightarrow> handle \<Rightarrow> error + TaffyTree" where
  "setNodeContext t h = (if h \<in> dom (styles t) then Inr t else Inl InvalidNode)"

section \<open>Nodes and the world they live in\<close>

text \<open>
  A wrapper object is named by the handle it was constructed with: its \<open>id\<close> is assigned
  once, and all nodes here share one engine tree. A wrapper outlives \<open>free\<close> (the caller
  still holds the object), so \<open>nodes\<close> is total. A measurement or dirtied callback is
  represented by a number naming the function; invoking a dirtied callback appends the
  function and the node it was given to \<open>dirtiedCalls\<close>. The callbacks themselves are
  assumed not to call back into the nodes.
\<close>

record Node =
  childList :: "handle list"
  parent :: "handle option"
  measureFunc :: "nat option"
  dirtiedFunc :: "nat option"
  isDirty_field :: bool
  hasNewLayout_field :: bool
  isReferenceBaseline_field :: bool
  styleCache :: StyleCache

record world =
  nodes :: "handle \<Rightarrow> Node"
  instanceCache :: "handle \<rightharpoonup> handle"
  tree :: TaffyTree
  dirtiedCalls :: "(nat \<times> handle) list"

text \<open>
  The result of a call that can throw or recurse: it returned, it threw and left the
  world as it was at the throw, or the recursion went deeper than the fuel given.
\<close>

datatype outcome = Done world | Threw error world | OutOfFuel

fun andThen :: "outcome \<Rightarrow> (world \<Rightarrow> outcome) \<Rightarrow> outcome" where
  "andThen (Done w) f = f w"
| "andThen (Threw e w) f = Threw e w"
| "andThen OutOfFuel f = OutOfFuel"

text \<open>\<open>for (const child of this.childList) child.f()\<close>\<close>

fun forEach :: "(handle \<Rightarrow> world \<Rightarrow> outcome) \<Rightarrow> handle list \<Rightarrow> world \<Rightarrow> outcome" where
  "forEach f [] w = Done w"
| "forEach f (c # cs) w = andThen (f c w) (forEach f cs)"

text \<open>The world an outcome leaves behind, where there is one.\<close>

fun world_of :: "outcome \<Rightarrow> world option" where
  "world_of (Done w) = Some w"
| "world_of (Threw e w) = Some w"
| "world_of OutOfFuel = None"

definition update_node :: "handle \<Rightarrow> (Node \<Rightarrow> Node) \<Rightarrow> world \<Rightarrow> world" where
  "update_node h f w = w\<lparr> nodes := (nodes w)(h := f (nodes w h)) \<rparr>"

definition update_cache :: "handle \<Rightarrow> (StyleCache \<Rightarrow> StyleCache) \<Rightarrow> world \<Rightarrow> world" where
  "update_cache h f w = update_node h (\<lambda>n. n\<lparr> styleCache := f (styleCache n) \<rparr>) w"

section \<open>Dirty state\<close>

definition markDirtyInternal :: "handle \<Rightarrow> world \<Rightarrow> world" where
  "markDirtyInternal h w =
     (let n = nodes w h in
      if \<not> isDirty_field n \<and> measureFunc n \<noteq> None \<and> dirtiedFunc n \<noteq> None
      then (update_node h (\<lambda>n. n\<lparr> isDirty_field := True \<rparr>) w)
             \<lparr> dirtiedCalls := dirtiedCalls w @ [(the (dirtiedFunc n), h)] \<rparr>
      else if \<not> isDirty_field n
      then update_node h (\<lambda>n. n\<lparr> isDirty_field := True \<rparr>) w
      else w)"

definition updateStyle :: "(taffy_style \<Rightarrow> taffy_style) \<Rightarrow> handle \<Rightarrow> world \<Rightarrow> outcome" where
  "updateStyle updater h w =
     (case getStyle (tree w) h of
        Inl e \<Rightarrow> Threw e w
      | Inr style \<Rightarrow>
          (case setStyle (tree w) h (updater style) of
             Inl e \<Rightarrow> Threw e w
           | Inr t \<Rightarrow> Done (markDirtyInternal h (w\<lparr> tree := t \<rparr>))))"



definition isDirty :: "world \<Rightarrow> handle \<Rightarrow> error + bool" where
  "isDirty w h = tree_dirty (tree w) h"

definition hasNewLayout :: "world \<Rightarrow> handle \<Rightarrow> bool" where
  "hasNewLayout w h = hasNewLayout_field (nodes w h)"

definition markLayoutSeen :: "handle \<Rightarrow> world \<Rightarrow> world" where
  "markLayoutSeen h w = update_node h (\<lambda>n. n\<lparr> hasNewLayout_field := False \<rparr>) w"

definition setDirtiedFunc :: "nat option \<Rightarrow> handle \<Rightarrow> world \<Rightarrow> world" where
  "setDirtiedFunc f h w = update_node h (\<lambda>n. n\<lparr> dirtiedFunc := f \<rparr>) w"

definition setMeasureFunc :: "nat option \<Rightarrow> handle \<Rightarrow> world \<Rightarrow> outcome" where
  "setMeasureFunc f h w =
     (case f of
        None \<Rightarrow>
          (case setNodeContext (tree w) h of
             Inl e \<Rightarrow> Threw e w
           | Inr t \<Rightarrow> Done (update_node h (\<lambda>n. n\<lparr> measureFunc := None \<rparr>) (w\<lparr> tree := t \<rparr>)))
      | Some m \<Rightarrow>
          (let w1 = update_node h (\<lambda>n. n\<lparr> measureFunc := Some m \<rparr>) w in
           case setNodeContext (tree w1) h of
             Inl e \<Rightarrow> Threw e w1
           | Inr t \<Rightarrow> Done (w1\<lparr> tree := t \<rparr>)))"

section \<open>Style setters\<close>

definition setFlexDirection :: "FlexDirection \<Rightarrow> handle \<Rightarrow> world \<Rightarrow> outcome" where
  "setFlexDirection fd h w =
     updateStyle (\<lambda>s. s\<lparr> flex_direction := fromYogaFlexDirection fd \<rparr>) h
       (update_cache h (\<lambda>c. c\<lparr> flexDirection := fd \<rparr>) w)"





definition setAlignContent :: "Align \<Rightarrow> handle \<Rightarrow> world \<Rightarrow> outcome" where
  "setAlignContent a h w =
     updateStyle (\<lambda>s. s\<lparr> align_content := Some (fromYogaAlignContent a) \<rparr>) h w"











definition getDirection :: "world \<Rightarrow> handle \<Rightarrow> Direction" where
  "getDirection w h = direction (styleCache (nodes w h))"

definition syncStyle :: "handle \<Rightarrow> world \<Rightarrow> outcome" where
  "syncStyle h w =
     updateStyle
       (\<lambda>s. s\<lparr> position := fromYogaPositionType (sc_position (styleCache (nodes w h))),
               inset := (if sc_position (styleCache (nodes w h)) = PositionTypeStatic
                         then autoRect else resolveInsets (styleCache (nodes w h))) \<rparr>)
       h w"


text \<open>\<open>setPosition\<close>: \<open>undefined\<close> stands for \<open>"auto"\<close>; compound edges fan out.\<close>

definition setPosition :: "Edge \<Rightarrow> jsvalue option \<Rightarrow> handle \<Rightarrow> world \<Rightarrow> outcome" where
  "setPosition edge pos h w =
     (let val = Some (InsetParsed (parseValue (case pos of None \<Rightarrow> JsString StrAuto | Some p \<Rightarrow> p)));
          upd =
            (if edge = EdgeAll
             then (\<lambda>i. i(EdgeLeft := val, EdgeRight := val, EdgeTop := val, EdgeBottom := val,
                         EdgeStart := val, EdgeEnd := val))
             else if edge = EdgeHorizontal
             then (\<lambda>i. i(EdgeLeft := val, EdgeRight := val, EdgeStart := val, EdgeEnd := val))
             else if edge = EdgeVertical
             then (\<lambda>i. i(EdgeTop := val, EdgeBottom := val))
             else (\<lambda>i. i(edge := val)))
      in syncStyle h (update_cache h (\<lambda>c. c\<lparr> insets := upd (insets c) \<rparr>) w))"



definition resolveMarginsToTaffy :: "handle \<Rightarrow> world \<Rightarrow> outcome" where
  "resolveMarginsToTaffy h w =
     updateStyle (\<lambda>s. s\<lparr> margin := resolveMargins (styleCache (nodes w h)) \<rparr>) h w"

definition resolvePaddingsToTaffy :: "handle \<Rightarrow> world \<Rightarrow> outcome" where
  "resolvePaddingsToTaffy h w =
     updateStyle (\<lambda>s. s\<lparr> padding := resolvePaddings (styleCache (nodes w h)) \<rparr>) h w"

definition resolveBordersToTaffy :: "handle \<Rightarrow> world \<Rightarrow> outcome" where
  "resolveBordersToTaffy h w =
     updateStyle (\<lambda>s. s\<lparr> border := resolveBorders (styleCache (nodes w h)) \<rparr>) h w"

definition setMargin :: "Edge \<Rightarrow> jsvalue option \<Rightarrow> handle \<Rightarrow> world \<Rightarrow> outcome" where
  "setMargin edge v h w =
     resolveMarginsToTaffy h (update_cache h (\<lambda>c. c\<lparr> margins := (margins c)(edge := v) \<rparr>) w)"

definition setPadding :: "Edge \<Rightarrow> jsvalue option \<Rightarrow> handle \<Rightarrow> world \<Rightarrow> outcome" where
  "setPadding edge v h w =
     resolvePaddingsToTaffy h (update_cache h (\<lambda>c. c\<lparr> paddings := (paddings c)(edge := v) \<rparr>) w)"




definition setBorder :: "Edge \<Rightarrow> number option \<Rightarrow> handle \<Rightarrow> world \<Rightarrow> outcome" where
  "setBorder edge v h w =
     resolveBordersToTaffy h (update_cache h (\<lambda>c. c\<lparr> borders := (borders c)(edge := v) \<rparr>) w)"

subsection \<open>Gap, dimensions, aspect ratio and box sizing\<close>




















subsection \<open>Copying a style\<close>


subsection \<open>The style-mutating operations of a node\<close>




section \<open>Edge getters\<close>

definition getPosition :: "world \<Rightarrow> handle \<Rightarrow> Edge \<Rightarrow> Value" where
  "getPosition w h edge =
     (if edge = EdgeAll \<or> edge = EdgeHorizontal \<or> edge = EdgeVertical then undefinedValue
      else parseToValue (map_option inset_jsvalue (insets (styleCache (nodes w h)) edge)))"

definition getMargin :: "world \<Rightarrow> handle \<Rightarrow> Edge \<Rightarrow> Value" where
  "getMargin w h edge =
     (if edge = EdgeAll \<or> edge = EdgeHorizontal \<or> edge = EdgeVertical then undefinedValue
      else parseToValue (margins (styleCache (nodes w h)) edge))"

definition getPadding :: "world \<Rightarrow> handle \<Rightarrow> Edge \<Rightarrow> Value" where
  "getPadding w h edge =
     (if edge = EdgeAll \<or> edge = EdgeHorizontal \<or> edge = EdgeVertical then undefinedValue
      else parseToValue (paddings (styleCache (nodes w h)) edge))"

definition getBorder :: "world \<Rightarrow> handle \<Rightarrow> Edge \<Rightarrow> number" where
  "getBorder w h edge =
     (if edge = EdgeAll \<or> edge = EdgeHorizontal \<or> edge = EdgeVertical then NaN
      else (case borders (styleCache (nodes w h)) edge of Some v \<Rightarrow> v | None \<Rightarrow> NaN))"

section \<open>Node lifecycle and tree structure\<close>

definition initial_node :: Node where
  "initial_node =
     \<lparr> childList = [], parent = None, measureFunc = None, dirtiedFunc = None,
       isDirty_field = False, hasNewLayout_field = True, isReferenceBaseline_field = False,
       styleCache = initial_styleCache \<rparr>"

text \<open>
  The constructor. \<open>defaultStyle\<close> is what \<open>new Taffy.Style()\<close> yields and
  \<open>useWebDefaults\<close> the flag of the node's config. The result is the new node together
  with the outcome of the constructor body.
\<close>

definition Node_new :: "taffy_style \<Rightarrow> bool \<Rightarrow> world \<Rightarrow> handle \<times> outcome" where
  "Node_new defaultStyle useWebDefaults w =
     (let (h, t) = newLeaf (tree w) defaultStyle;
          w1 = w\<lparr> nodes := (nodes w)(h := initial_node),
                  tree := t,
                  instanceCache := (instanceCache w)(h \<mapsto> h) \<rparr>
      in (h, if \<not> useWebDefaults
             then andThen (setFlexDirection FlexDirectionColumn h w1)
                    (setAlignContent AlignFlexStart h)
             else Done w1))"

definition free :: "handle \<Rightarrow> world \<Rightarrow> outcome" where
  "free h w =
     (case tree_remove (tree w) h of
        Inl e \<Rightarrow> Threw e w
      | Inr t \<Rightarrow> Done (w\<lparr> tree := t, instanceCache := (instanceCache w)(h := None) \<rparr>))"

fun freeRecursive :: "nat \<Rightarrow> handle \<Rightarrow> world \<Rightarrow> outcome" where
  "freeRecursive 0 h w = OutOfFuel"
| "freeRecursive (Suc k) h w =
     andThen (forEach (freeRecursive k) (childList (nodes w h)) w) (free h)"

definition getNodeById :: "world \<Rightarrow> handle \<Rightarrow> handle option" where
  "getNodeById w h = instanceCache w h"

text \<open>\<open>splice(index, 0, child)\<close> appends when the index is past the end.\<close>

definition insertChild :: "handle \<Rightarrow> nat \<Rightarrow> handle \<Rightarrow> world \<Rightarrow> outcome" where
  "insertChild child index h w =
     (case insertChildAtIndex (tree w) h index child of
        Inl e \<Rightarrow> Threw e w
      | Inr t \<Rightarrow>
          Done (update_node child (\<lambda>n. n\<lparr> parent := Some h \<rparr>)
                 (update_node h
                    (\<lambda>n. n\<lparr> childList := take index (childList n) @ child # drop index (childList n) \<rparr>)
                    (w\<lparr> tree := t \<rparr>))))"

section \<open>Layout pass\<close>

text \<open>
  The engine's computation, as a parameter: from the world at the call (the tree, and the
  measurement callbacks it reaches through the registry), the root and the available
  space, it either fails or yields the new layouts and the new engine-side dirty flags.
\<close>

datatype availableSpace = MaxContent | Definite number

datatype computed = ComputeError | Computed "handle \<Rightarrow> layout" "handle \<Rightarrow> bool"

type_synonym engine = "world \<Rightarrow> handle \<Rightarrow> availableSpace \<Rightarrow> availableSpace \<Rightarrow> computed"

definition computeLayoutWithMeasure ::
  "engine \<Rightarrow> handle \<Rightarrow> availableSpace \<Rightarrow> availableSpace \<Rightarrow> world \<Rightarrow> outcome" where
  "computeLayoutWithMeasure eng h aw ah w =
     (if h \<notin> dom (styles (tree w)) then Threw InvalidNode w
      else (case eng w h aw ah of
              ComputeError \<Rightarrow> Threw ComputeFailed w
            | Computed ls ds \<Rightarrow> Done (w\<lparr> tree := (tree w)\<lparr> layouts := ls, dirtyFlags := ds \<rparr> \<rparr>)))"

fun resolveInsetsToTaffy :: "nat \<Rightarrow> handle \<Rightarrow> world \<Rightarrow> outcome" where
  "resolveInsetsToTaffy 0 h w = OutOfFuel"
| "resolveInsetsToTaffy (Suc k) h w =
     andThen
       (if sc_position (styleCache (nodes w h)) = PositionTypeStatic
        then updateStyle (\<lambda>s. s\<lparr> inset := autoRect \<rparr>) h w
        else updateStyle (\<lambda>s. s\<lparr> inset := resolveInsets (styleCache (nodes w h)) \<rparr>) h w)
       (\<lambda>w1. forEach
                (\<lambda>child w2.
                   resolveInsetsToTaffy k child
                     (update_cache child
                        (\<lambda>c. c\<lparr> lastDirection := lastDirection (styleCache (nodes w2 h)) \<rparr>) w2))
                (childList (nodes w1 h)) w1)"

fun markNewLayoutRecursive :: "nat \<Rightarrow> handle \<Rightarrow> world \<Rightarrow> outcome" where
  "markNewLayoutRecursive 0 h w = OutOfFuel"
| "markNewLayoutRecursive (Suc k) h w =
     (let w1 = update_node h (\<lambda>n. n\<lparr> isDirty_field := False, hasNewLayout_field := True \<rparr>) w
      in forEach (markNewLayoutRecursive k) (childList (nodes w1 h)) w1)"

text \<open>The \<open>flippedFd\<close> that \<open>applyRTLFlip\<close> computes from the cached direction.\<close>

definition flippedFd :: "FlexDirection \<Rightarrow> FlexDirection" where
  "flippedFd fd =
     (if fd = FlexDirectionRow then FlexDirectionRowReverse
      else if fd = FlexDirectionRowReverse then FlexDirectionRow
      else fd)"

fun applyRTLFlip :: "nat \<Rightarrow> handle \<Rightarrow> world \<Rightarrow> outcome" where
  "applyRTLFlip 0 h w = OutOfFuel"
| "applyRTLFlip (Suc k) h w =
     (let fd = flexDirection (styleCache (nodes w h))
      in andThen
           (updateStyle (\<lambda>s. s\<lparr> flex_direction := fromYogaFlexDirection (flippedFd fd) \<rparr>) h w)
           (\<lambda>w1. forEach (applyRTLFlip k) (childList (nodes w1 h)) w1))"

fun restoreFlexDirection :: "nat \<Rightarrow> handle \<Rightarrow> world \<Rightarrow> outcome" where
  "restoreFlexDirection 0 h w = OutOfFuel"
| "restoreFlexDirection (Suc k) h w =
     (let fd = flexDirection (styleCache (nodes w h))
      in andThen (updateStyle (\<lambda>s. s\<lparr> flex_direction := fromYogaFlexDirection fd \<rparr>) h w)
           (\<lambda>w1. forEach (restoreFlexDirection k) (childList (nodes w1 h)) w1))"

text \<open>
  \<open>calculateLayout(width, height, direction)\<close>: a missing width or height is \<open>NaN\<close>, a
  missing direction is \<open>None\<close>.
\<close>

definition effectiveDirection :: "Direction option \<Rightarrow> world \<Rightarrow> handle \<Rightarrow> Direction" where
  "effectiveDirection dir w h =
     (case dir of
        Some d \<Rightarrow> d
      | None \<Rightarrow> (if getDirection w h = DirectionInherit then DirectionLTR
                 else getDirection w h))"

definition calculateLayout ::
  "engine \<Rightarrow> nat \<Rightarrow> number \<Rightarrow> number \<Rightarrow> Direction option \<Rightarrow> handle \<Rightarrow> world \<Rightarrow> outcome" where
  "calculateLayout eng fuel width height dir h w =
     (let w0 = update_cache h (\<lambda>c. c\<lparr> lastDirection := effectiveDirection dir w h \<rparr>) w;
          isRTL = (effectiveDirection dir w h = DirectionRTL);
          aw = (if isNaN width then MaxContent else Definite width);
          ah = (if isNaN height then MaxContent else Definite height)
      in andThen (resolveBordersToTaffy h w0) (\<lambda>w1.
         andThen (resolveMarginsToTaffy h w1) (\<lambda>w2.
         andThen (resolvePaddingsToTaffy h w2) (\<lambda>w3.
         andThen (resolveInsetsToTaffy fuel h w3) (\<lambda>w4.
         andThen (if isRTL then applyRTLFlip fuel h w4 else Done w4) (\<lambda>w5.
         andThen (computeLayoutWithMeasure eng h aw ah w5) (\<lambda>w6.
         andThen (if isRTL then restoreFlexDirection fuel h w6 else Done w6) (\<lambda>w7.
         markNewLayoutRecursive fuel h w7))))))))"

section \<open>Computed geometry\<close>

definition getComputedLeft :: "world \<Rightarrow> handle \<Rightarrow> error + number" where
  "getComputedLeft w h = map_sum id location_x (getLayout (tree w) h)"

definition getComputedTop :: "world \<Rightarrow> handle \<Rightarrow> error + number" where
  "getComputedTop w h = map_sum id location_y (getLayout (tree w) h)"

definition getComputedWidth :: "world \<Rightarrow> handle \<Rightarrow> error + number" where
  "getComputedWidth w h = map_sum id size_width (getLayout (tree w) h)"

definition getComputedHeight :: "world \<Rightarrow> handle \<Rightarrow> error + number" where
  "getComputedHeight w h = map_sum id size_height (getLayout (tree w) h)"

definition getComputedRight :: "world \<Rightarrow> handle \<Rightarrow> error + number" where
  "getComputedRight w h =
     map_sum id (\<lambda>l. js_add (location_x l) (size_width l)) (getLayout (tree w) h)"

definition getComputedBottom :: "world \<Rightarrow> handle \<Rightarrow> error + number" where
  "getComputedBottom w h =
     map_sum id (\<lambda>l. js_add (location_y l) (size_height l)) (getLayout (tree w) h)"

record computedLayout =
  cl_left :: number
  cl_top :: number
  cl_width :: number
  cl_height :: number
  cl_right :: number
  cl_bottom :: number

definition getComputedLayout :: "world \<Rightarrow> handle \<Rightarrow> error + computedLayout" where
  "getComputedLayout w h =
     map_sum id
       (\<lambda>l. \<lparr> cl_left = location_x l, cl_top = location_y l,
              cl_width = size_width l, cl_height = size_height l,
              cl_right = js_add (location_x l) (size_width l),
              cl_bottom = js_add (location_y l) (size_height l) \<rparr>)
       (getLayout (tree w) h)"

section \<open>Notions used to state the properties\<close>

text \<open>The sum of two accessor results: the first error if either call threw.\<close>

definition add_results :: "error + number \<Rightarrow> error + number \<Rightarrow> error + number" where
  "add_results a b =
     (case a of
        Inl e \<Rightarrow> Inl e
      | Inr x \<Rightarrow> (case b of Inl e \<Rightarrow> Inl e | Inr y \<Rightarrow> Inr (js_add x y)))"

text \<open>What an outcome's world holds for a node: its live style and its cache.\<close>

definition live_style :: "outcome \<Rightarrow> handle \<Rightarrow> taffy_style option" where
  "live_style r h = (case world_of r of None \<Rightarrow> None | Some w \<Rightarrow> styles (tree w) h)"

definition cache_of :: "outcome \<Rightarrow> handle \<Rightarrow> StyleCache option" where
  "cache_of r h = (case world_of r of None \<Rightarrow> None | Some w \<Rightarrow> Some (styleCache (nodes w h)))"

text \<open>
  The finite tree that the child lists span below a node: \<open>unfolds w t\<close> says that the
  child list of the root of \<open>t\<close> is the list of the roots of its subtrees, and so on
  below. A cyclic child list unfolds into no tree. \<open>height\<close> is the recursion depth a
  traversal of \<open>t\<close> needs.
\<close>

datatype shape = Shape handle "shape list"

fun rootOf :: "shape \<Rightarrow> handle" where
  "rootOf (Shape h ts) = h"

fun preorder :: "shape \<Rightarrow> handle list" where
  "preorder (Shape h ts) = h # concat (map preorder ts)"

fun postorder :: "shape \<Rightarrow> handle list" where
  "postorder (Shape h ts) = concat (map postorder ts) @ [h]"

fun height :: "shape \<Rightarrow> nat" where
  "height (Shape h ts) = Suc (foldr max (map height ts) 0)"

fun unfolds :: "world \<Rightarrow> shape \<Rightarrow> bool" where
  "unfolds w (Shape h ts) =
     (childList (nodes w h) = map rootOf ts \<and> list_all (unfolds w) ts)"

text \<open>
  What no step of a layout pass changes, between the world \<open>w\<close> before and the world
  \<open>w'\<close> after: the tree structure on both sides, the callbacks, the caches up to the last
  resolved direction, the registry, the set of live handles and, outside the nodes in
  \<open>X\<close>, the margin, padding and border of the live styles.
\<close>

definition frame :: "handle set \<Rightarrow> world \<Rightarrow> world \<Rightarrow> bool" where
  "frame X w w' =
     ((\<forall>h. childList (nodes w' h) = childList (nodes w h) \<and>
           parent (nodes w' h) = parent (nodes w h) \<and>
           measureFunc (nodes w' h) = measureFunc (nodes w h) \<and>
           dirtiedFunc (nodes w' h) = dirtiedFunc (nodes w h) \<and>
           (styleCache (nodes w' h))\<lparr> lastDirection := DirectionLTR \<rparr> =
             (styleCache (nodes w h))\<lparr> lastDirection := DirectionLTR \<rparr>) \<and>
      instanceCache w' = instanceCache w \<and>
      dom (styles (tree w')) = dom (styles (tree w)) \<and>
      tparent (tree w') = tparent (tree w) \<and>
      nextId (tree w') = nextId (tree w) \<and>
      (\<forall>h. h \<in> X \<or>
           (map_option margin (styles (tree w') h) = map_option margin (styles (tree w) h) \<and>
            map_option padding (styles (tree w') h) = map_option padding (styles (tree w) h) \<and>
            map_option border (styles (tree w') h) = map_option border (styles (tree w) h))))"

text \<open>
  The part of \<open>calculateLayout\<close> that runs before the engine is called: it returns in the
  world that is handed to the engine's computation.
\<close>

definition beforeCompute :: "nat \<Rightarrow> Direction option \<Rightarrow> handle \<Rightarrow> world \<Rightarrow> outcome" where
  "beforeCompute fuel dir h w =
     (let w0 = update_cache h (\<lambda>c. c\<lparr> lastDirection := effectiveDirection dir w h \<rparr>) w;
          isRTL = (effectiveDirection dir w h = DirectionRTL)
      in andThen (resolveBordersToTaffy h w0) (\<lambda>w1.
         andThen (resolveMarginsToTaffy h w1) (\<lambda>w2.
         andThen (resolvePaddingsToTaffy h w2) (\<lambda>w3.
         andThen (resolveInsetsToTaffy fuel h w3) (\<lambda>w4.
         if isRTL then applyRTLFlip fuel h w4 else Done w4)))))"









text \<open>What an outcome's world holds, continued; whether a call returned, what it threw.\<close>

definition node_of :: "outcome \<Rightarrow> handle \<Rightarrow> Node option" where
  "node_of r h = (case world_of r of None \<Rightarrow> None | Some w \<Rightarrow> Some (nodes w h))"

definition calls_of :: "outcome \<Rightarrow> (nat \<times> handle) list option" where
  "calls_of r = map_option dirtiedCalls (world_of r)"

definition isDirty_of :: "outcome \<Rightarrow> handle \<Rightarrow> (error + bool) option" where
  "isDirty_of r h = (case world_of r of None \<Rightarrow> None | Some w \<Rightarrow> Some (isDirty w h))"

definition registry_of :: "outcome \<Rightarrow> handle \<Rightarrow> handle option option" where
  "registry_of r h = (case world_of r of None \<Rightarrow> None | Some w \<Rightarrow> Some (getNodeById w h))"

fun thrown :: "outcome \<Rightarrow> error option" where
  "thrown (Threw e w) = Some e"
| "thrown (Done w) = None"
| "thrown OutOfFuel = None"

fun returned :: "outcome \<Rightarrow> bool" where
  "returned (Done w) = True"
| "returned (Threw e w) = False"
| "returned OutOfFuel = False"

section \<open>Example worlds\<close>

text \<open>
  A style for \<open>new Taffy.Style()\<close> and the world before any node exists; the examples
  below are built from them with the operations above.
\<close>

definition example_style :: taffy_style where
  "example_style =
     \<lparr> display = TaffyDisplayFlex, flex_direction = TaffyRow, flex_wrap = TaffyNoWrap,
       align_items = None, align_self = None, align_content = None, justify_content = None,
       flex_grow = Num 0, flex_shrink = Num 1, flex_basis = Auto,
       overflow = \<lparr> overflow_x = TaffyOverflowVisible, overflow_y = TaffyOverflowVisible \<rparr>,
       aspect_ratio = None, gap = None,
       style_size = \<lparr> dim_width = Auto, dim_height = Auto \<rparr>,
       min_size = \<lparr> dim_width = Auto, dim_height = Auto \<rparr>,
       max_size = \<lparr> dim_width = Auto, dim_height = Auto \<rparr>,
       box_sizing = TaffyBorderBox, position = TaffyRelative,
       inset = autoRect, margin = zeroRect, padding = zeroRect, border = zeroRect \<rparr>"

definition empty_world :: world where
  "empty_world =
     \<lparr> nodes = (\<lambda>_. initial_node), instanceCache = Map.empty,
       tree = \<lparr> styles = Map.empty, tchildren = (\<lambda>_. []), tparent = (\<lambda>_. None),
                layouts = (\<lambda>_. zeroLayout), dirtyFlags = (\<lambda>_. False), nextId = 0 \<rparr>,
       dirtiedCalls = [] \<rparr>"

text \<open>
  An engine whose computation always returns (it keeps the layouts and clears every
  engine-side dirty flag), and one whose computation always fails.
\<close>

definition succeeding_engine :: engine where
  "succeeding_engine w h aw ah = Computed (layouts (tree w)) (\<lambda>_. False)"

definition failing_engine :: engine where
  "failing_engine w h aw ah = ComputeError"

text \<open>
  One node created with web defaults (so that the constructor sets no style and the
  node's own dirty flag is not set; the engine's flag of a new leaf is), given a
  measurement callback \<open>1\<close> and a dirtied callback \<open>2\<close>.
\<close>

definition measured_leaf :: world where
  "measured_leaf =
     \<lparr> nodes = (\<lambda>_. initial_node)
                 (0 := initial_node\<lparr> measureFunc := Some 1, dirtiedFunc := Some 2 \<rparr>),
       instanceCache = [0 \<mapsto> 0],
       tree = \<lparr> styles = [0 \<mapsto> example_style], tchildren = (\<lambda>_. []),
                tparent = (\<lambda>_. None), layouts = (\<lambda>_. zeroLayout),
                dirtyFlags = (\<lambda>_. False)(0 := True), nextId = Suc 0 \<rparr>,
       dirtiedCalls = [] \<rparr>"

text \<open>
  Two nodes; \<open>0\<close> will be the parent and \<open>1\<close> the child. The world that an
  example leaves is the one its calls return in.
\<close>

definition two_nodes :: "bool \<Rightarrow> outcome" where
  "two_nodes web =
     andThen (snd (Node_new example_style web empty_world))
       (\<lambda>w. snd (Node_new example_style web w))"

fun final_world :: "outcome \<Rightarrow> world" where
  "final_world (Done w) = w"
| "final_world (Threw e w) = w"
| "final_world OutOfFuel = empty_world"

definition pair_shape :: shape where
  "pair_shape = Shape 0 [Shape 1 []]"

text \<open>
  \<open>p = Node.create(); c = Node.create(); p.setFlexDirection(Row);
  c.setFlexDirection(Row); p.insertChild(c, 0)\<close>
\<close>

definition row_pair_scenario :: outcome where
  "row_pair_scenario =
     andThen (two_nodes False) (\<lambda>w.
     andThen (setFlexDirection FlexDirectionRow 0 w) (\<lambda>w.
     andThen (setFlexDirection FlexDirectionRow 1 w)
       (insertChild 1 0 0)))"

definition row_pair :: world where
  "row_pair = final_world row_pair_scenario"

text \<open>
  \<open>p = Node.create(); c = Node.create(); c.setMargin(Edge.Start, 10);
  c.setPadding(Edge.Start, 10); c.setBorder(Edge.Start, 10); p.insertChild(c, 0)\<close>
\<close>

definition start_edges_scenario :: outcome where
  "start_edges_scenario =
     andThen (two_nodes False) (\<lambda>w.
     andThen (setMargin EdgeStart (Some (JsNumber (Num 10))) 1 w) (\<lambda>w.
     andThen (setPadding EdgeStart (Some (JsNumber (Num 10))) 1 w) (\<lambda>w.
     andThen (setBorder EdgeStart (Some (Num 10)) 1 w)
       (insertChild 1 0 0))))"

definition start_edges :: world where
  "start_edges = final_world start_edges_scenario"

text \<open>The cache of the child \<open>c\<close> in that world.\<close>

definition start_edges_cache :: StyleCache where
  "start_edges_cache =
     initial_styleCache
       \<lparr> borders := (\<lambda>e. None)(EdgeStart \<mapsto> Num 10),
         margins := (\<lambda>e. None)(EdgeStart \<mapsto> JsNumber (Num 10)),
         paddings := (\<lambda>e. None)(EdgeStart \<mapsto> JsNumber (Num 10)) \<rparr>"

text \<open>
  A tree of three levels:
  \<open>a = Node.create(); b = Node.create(); c = Node.create(); b.insertChild(c, 0);
  a.insertChild(b, 0)\<close>
\<close>

definition three_levels_scenario :: outcome where
  "three_levels_scenario =
     andThen (two_nodes False) (\<lambda>w.
     andThen (snd (Node_new example_style False w)) (\<lambda>w.
     andThen (insertChild 2 0 1 w)
       (insertChild 1 0 0)))"

definition three_levels :: world where
  "three_levels = final_world three_levels_scenario"

definition chain_shape :: shape where
  "chain_shape = Shape 0 [Shape 1 [Shape 2 []]]"





definition three_levels_b_freed :: world where
  "three_levels_b_freed = final_world (free (Suc 0) three_levels)"

text \<open>
  \<open>n = Node.create(); n.setPosition(Edge.Start, 10); n.setPosition(Edge.Left, 20)\<close>
\<close>

definition inset_scenario :: outcome where
  "inset_scenario =
     andThen (snd (Node_new example_style False empty_world))
       (\<lambda>w. andThen (setPosition EdgeStart (Some (JsNumber (Num 10))) 0 w)
          (setPosition EdgeLeft (Some (JsNumber (Num 20))) 0))"

text \<open>
  A cache in which every family holds \<open>Start = 10\<close>, \<open>Left = 20\<close>, \<open>Right = 30\<close>,
  \<open>Top = 40\<close> and \<open>Bottom = 50\<close>, and one that holds \<open>Start = 10\<close> and \<open>Left = 20\<close> only;
  both left-to-right.
\<close>

definition example_edges :: "Edge \<Rightarrow> real option" where
  "example_edges =
     (\<lambda>e. None)(EdgeStart \<mapsto> 10, EdgeLeft \<mapsto> 20, EdgeRight \<mapsto> 30, EdgeTop \<mapsto> 40,
                 EdgeBottom \<mapsto> 50)"

definition full_cache :: StyleCache where
  "full_cache =
     initial_styleCache
       \<lparr> insets := (\<lambda>e. case example_edges e of
                          None \<Rightarrow> initial_insets e
                        | Some x \<Rightarrow> Some (InsetParsed (Length (Num x)))),
         borders := map_option Num \<circ> example_edges,
         margins := map_option (JsNumber \<circ> Num) \<circ> example_edges,
         paddings := map_option (JsNumber \<circ> Num) \<circ> example_edges \<rparr>"

definition start_left_cache :: StyleCache where
  "start_left_cache =
     initial_styleCache
       \<lparr> insets := initial_insets(EdgeStart \<mapsto> InsetParsed (Length (Num 10)),
                                   EdgeLeft \<mapsto> InsetParsed (Length (Num 20))),
         borders := (\<lambda>e. None)(EdgeStart \<mapsto> Num 10, EdgeLeft \<mapsto> Num 20),
         margins := (\<lambda>e. None)(EdgeStart \<mapsto> JsNumber (Num 10), EdgeLeft \<mapsto> JsNumber (Num 20)),
         paddings := (\<lambda>e. None)(EdgeStart \<mapsto> JsNumber (Num 10), EdgeLeft \<mapsto> JsNumber (Num 20)) \<rparr>"

section \<open>Evaluation and basic facts\<close>

lemmas eval_defs =
  Node_new_def newLeaf_def empty_world_def setMeasureFunc_def setDirtiedFunc_def
  setNodeContext_def update_node_def update_cache_def Let_def initial_node_def
  initial_styleCache_def initial_insets_def setFlexDirection_def setAlignContent_def
  updateStyle_def getStyle_def setStyle_def mark_dirty_def markDirtyInternal_def setPosition_def
  syncStyle_def resolveInsets_def inset_get_def live_style_def cache_of_def autoRect_def
  zeroRect_def example_style_def node_of_def calls_of_def isDirty_of_def registry_of_def

lemma measured_leaf_reachable:
  "andThen (snd (Node_new example_style True empty_world))
     (\<lambda>w. andThen (setMeasureFunc (Some 1) 0 w) (\<lambda>w. Done (setDirtiedFunc (Some 2) 0 w)))
   = Done measured_leaf"
  by (simp add: eval_defs measured_leaf_def fun_upd_idem)

lemma markedFrom_self: "h \<in> set (markedFrom k par h)"
  by (cases k) simp_all

lemma mark_dirty_fields:
  "styles (mark_dirty t h) = styles t" "tchildren (mark_dirty t h) = tchildren t"
  "tparent (mark_dirty t h) = tparent t" "layouts (mark_dirty t h) = layouts t"
  "nextId (mark_dirty t h) = nextId t"
  "dirtyFlags (mark_dirty t h) n =
     (n \<in> set (markedFrom (nextId t) (tparent t) h) \<or> dirtyFlags t n)"
  by (simp_all add: mark_dirty_def)

lemma mark_dirty_flags: "dirtyFlags (mark_dirty t h) h" "dirtyFlags t n \<Longrightarrow> dirtyFlags (mark_dirty t h) n"
  by (simp_all add: mark_dirty_def markedFrom_self)

lemma updateStyle_live:
  "styles (tree w) h = Some s \<Longrightarrow>
   updateStyle u h w =
     Done (markDirtyInternal h
            (w\<lparr> tree := mark_dirty ((tree w)\<lparr> styles := (styles (tree w))(h \<mapsto> u s) \<rparr>) h \<rparr>))"
  by (simp add: updateStyle_def getStyle_def setStyle_def dom_def)

text \<open>What the projections of an outcome yield.\<close>

lemma live_style_Done: "live_style (Done w) h = styles (tree w) h"
  by (simp add: live_style_def)

lemma live_style_Threw: "live_style (Threw e w) h = styles (tree w) h"
  by (simp add: live_style_def)

lemma cache_of_Done: "cache_of (Done w) h = Some (styleCache (nodes w h))"
  by (simp add: cache_of_def)

lemma cache_of_Threw: "cache_of (Threw e w) h = Some (styleCache (nodes w h))"
  by (simp add: cache_of_def)

lemma node_of_Done: "node_of (Done w) h = Some (nodes w h)"
  by (simp add: node_of_def)

lemma isDirty_of_Done: "isDirty_of (Done w) h = Some (isDirty w h)"
  by (simp add: isDirty_of_def)

lemma isDirty_live: "h \<in> dom (styles (tree w)) \<Longrightarrow> isDirty w h = Inr (dirtyFlags (tree w) h)"
  by (simp add: isDirty_def tree_dirty_def)


lemma registry_of_Done: "registry_of (Done w) h = Some (getNodeById w h)"
  by (simp add: registry_of_def)

lemma registry_of_Threw: "registry_of (Threw e w) h = Some (getNodeById w h)"
  by (simp add: registry_of_def)

section \<open>Style Resolver: precedence of edges\<close>

lemma setPhysical_sides:
  "left (setPhysical e v r) = (if e = EdgeLeft \<and> v \<noteq> None then parseValue (the v) else left r)"
  "right (setPhysical e v r) = (if e = EdgeRight \<and> v \<noteq> None then parseValue (the v) else right r)"
  "top_side (setPhysical e v r) = (if e = EdgeTop \<and> v \<noteq> None then parseValue (the v) else top_side r)"
  "bottom_side (setPhysical e v r) =
     (if e = EdgeBottom \<and> v \<noteq> None then parseValue (the v) else bottom_side r)"
  by (cases v; cases e; simp add: setPhysical_def)+

lemma setPhysicalBorder_sides:
  "left (setPhysicalBorder e v r) = (if e = EdgeLeft \<and> v \<noteq> None then Length (the v) else left r)"
  "right (setPhysicalBorder e v r) = (if e = EdgeRight \<and> v \<noteq> None then Length (the v) else right r)"
  "top_side (setPhysicalBorder e v r) =
     (if e = EdgeTop \<and> v \<noteq> None then Length (the v) else top_side r)"
  "bottom_side (setPhysicalBorder e v r) =
     (if e = EdgeBottom \<and> v \<noteq> None then Length (the v) else bottom_side r)"
  by (cases v; cases e; simp add: setPhysicalBorder_def)+

lemma resolveEdges_physical:
  "m EdgeLeft = Some vl \<Longrightarrow> left (resolveEdges r0 rtl m) = parseValue vl"
  "m EdgeRight = Some vr \<Longrightarrow> right (resolveEdges r0 rtl m) = parseValue vr"
  "m EdgeTop = Some vt \<Longrightarrow> top_side (resolveEdges r0 rtl m) = parseValue vt"
  "m EdgeBottom = Some vb \<Longrightarrow> bottom_side (resolveEdges r0 rtl m) = parseValue vb"
  by (simp_all add: resolveEdges_def Let_def setPhysical_sides)

lemma resolveBorders_physical:
  "borders c EdgeLeft = Some bl \<Longrightarrow> left (resolveBorders c) = Length bl"
  "borders c EdgeRight = Some br \<Longrightarrow> right (resolveBorders c) = Length br"
  "borders c EdgeTop = Some bt \<Longrightarrow> top_side (resolveBorders c) = Length bt"
  "borders c EdgeBottom = Some bb \<Longrightarrow> bottom_side (resolveBorders c) = Length bb"
  by (simp_all add: resolveBorders_def Let_def setPhysicalBorder_sides)

lemma resolveInsets_sides:
  "top_side (resolveInsets c) = inset_parser (inset_get c EdgeTop)"
  "bottom_side (resolveInsets c) = inset_parser (inset_get c EdgeBottom)"
  "left (resolveInsets c) =
     (if lastDirection c = DirectionRTL
      then (if inset_parser (inset_get c EdgeEnd) \<noteq> Auto
            then inset_parser (inset_get c EdgeEnd) else inset_parser (inset_get c EdgeLeft))
      else (if inset_parser (inset_get c EdgeStart) \<noteq> Auto
            then inset_parser (inset_get c EdgeStart) else inset_parser (inset_get c EdgeLeft)))"
  "right (resolveInsets c) =
     (if lastDirection c = DirectionRTL
      then (if inset_parser (inset_get c EdgeStart) \<noteq> Auto
            then inset_parser (inset_get c EdgeStart) else inset_parser (inset_get c EdgeRight))
      else (if inset_parser (inset_get c EdgeEnd) \<noteq> Auto
            then inset_parser (inset_get c EdgeEnd) else inset_parser (inset_get c EdgeRight)))"
  by (simp_all add: resolveInsets_def Let_def)

lemma edge_precedence:
  "(margins c EdgeLeft = Some ml \<longrightarrow> left (resolveMargins c) = parseValue ml) \<and>
   (margins c EdgeRight = Some mr \<longrightarrow> right (resolveMargins c) = parseValue mr) \<and>
   (margins c EdgeTop = Some mt \<longrightarrow> top_side (resolveMargins c) = parseValue mt) \<and>
   (margins c EdgeBottom = Some mb \<longrightarrow> bottom_side (resolveMargins c) = parseValue mb) \<and>
   (paddings c EdgeLeft = Some pl \<longrightarrow> left (resolvePaddings c) = parseValue pl) \<and>
   (paddings c EdgeRight = Some pr \<longrightarrow> right (resolvePaddings c) = parseValue pr) \<and>
   (paddings c EdgeTop = Some pt \<longrightarrow> top_side (resolvePaddings c) = parseValue pt) \<and>
   (paddings c EdgeBottom = Some pb \<longrightarrow> bottom_side (resolvePaddings c) = parseValue pb) \<and>
   (borders c EdgeLeft = Some bl \<longrightarrow> left (resolveBorders c) = Length bl) \<and>
   (borders c EdgeRight = Some br \<longrightarrow> right (resolveBorders c) = Length br) \<and>
   (borders c EdgeTop = Some bt \<longrightarrow> top_side (resolveBorders c) = Length bt) \<and>
   (borders c EdgeBottom = Some bb \<longrightarrow> bottom_side (resolveBorders c) = Length bb) \<and>
   top_side (resolveInsets c) = inset_parser (inset_get c EdgeTop) \<and>
   bottom_side (resolveInsets c) = inset_parser (inset_get c EdgeBottom) \<and>
   left (resolveInsets c) =
     (if lastDirection c = DirectionRTL
      then (if inset_parser (inset_get c EdgeEnd) \<noteq> Auto
            then inset_parser (inset_get c EdgeEnd) else inset_parser (inset_get c EdgeLeft))
      else (if inset_parser (inset_get c EdgeStart) \<noteq> Auto
            then inset_parser (inset_get c EdgeStart) else inset_parser (inset_get c EdgeLeft))) \<and>
   right (resolveInsets c) =
     (if lastDirection c = DirectionRTL
      then (if inset_parser (inset_get c EdgeStart) \<noteq> Auto
            then inset_parser (inset_get c EdgeStart) else inset_parser (inset_get c EdgeRight))
      else (if inset_parser (inset_get c EdgeEnd) \<noteq> Auto
            then inset_parser (inset_get c EdgeEnd) else inset_parser (inset_get c EdgeRight)))"
  unfolding resolveMargins_def resolvePaddings_def
  using resolveEdges_physical resolveBorders_physical resolveInsets_sides
  by presburger

lemmas cache_defs =
  full_cache_def start_left_cache_def example_edges_def initial_styleCache_def
  initial_insets_def resolveMargins_def resolvePaddings_def resolveBorders_def
  resolveEdges_def resolveInsets_def setPhysical_def setPhysicalBorder_def inset_get_def
  autoRect_def zeroRect_def Let_def

lemma start_left_examples:
  "resolveMargins start_left_cache =
     \<lparr> left = Length (Num 20), right = Auto, top_side = Auto, bottom_side = Auto \<rparr>"
  "resolveInsets start_left_cache =
     \<lparr> left = Length (Num 10), right = Auto, top_side = Auto, bottom_side = Auto \<rparr>"
  by (simp_all add: cache_defs)

text \<open>
  C1, as the code has it. For margin, padding and border an explicitly set physical edge
  (\<open>Left\<close>, \<open>Right\<close>, \<open>Top\<close>, \<open>Bottom\<close>) is the resolved value of its side, whatever the
  compound and logical edges hold and whatever the direction. For inset the order between
  logical and physical is the other way round: \<open>Top\<close> and \<open>Bottom\<close> are taken from the cache
  as they are, and on \<open>Left\<close> and \<open>Right\<close> the logical edge that the direction maps to the
  side (\<open>Start\<close> to left and \<open>End\<close> to right when left-to-right, swapped when right-to-left)
  is the resolved value whenever it is not \<open>Auto\<close>; the physical edge is used only when
  that logical edge is \<open>Auto\<close>. With \<open>Start = 10\<close> and \<open>Left = 20\<close> under
  left-to-right, margin resolves to left 20 and right \<open>Auto\<close>, inset to left 10 and right
  \<open>Auto\<close>.
\<close>

theorem physical_edge_precedence:
  "resolveMargins start_left_cache =
     \<lparr> left = Length (Num 20), right = Auto, top_side = Auto, bottom_side = Auto \<rparr> \<and>
   resolveInsets start_left_cache =
     \<lparr> left = Length (Num 10), right = Auto, top_side = Auto, bottom_side = Auto \<rparr> \<and>
   (margins c EdgeLeft = Some ml \<longrightarrow> left (resolveMargins c) = parseValue ml) \<and>
   (margins c EdgeRight = Some mr \<longrightarrow> right (resolveMargins c) = parseValue mr) \<and>
   (margins c EdgeTop = Some mt \<longrightarrow> top_side (resolveMargins c) = parseValue mt) \<and>
   (margins c EdgeBottom = Some mb \<longrightarrow> bottom_side (resolveMargins c) = parseValue mb) \<and>
   (paddings c EdgeLeft = Some pl \<longrightarrow> left (resolvePaddings c) = parseValue pl) \<and>
   (paddings c EdgeRight = Some pr \<longrightarrow> right (resolvePaddings c) = parseValue pr) \<and>
   (paddings c EdgeTop = Some pt \<longrightarrow> top_side (resolvePaddings c) = parseValue pt) \<and>
   (paddings c EdgeBottom = Some pb \<longrightarrow> bottom_side (resolvePaddings c) = parseValue pb) \<and>
   (borders c EdgeLeft = Some bl \<longrightarrow> left (resolveBorders c) = Length bl) \<and>
   (borders c EdgeRight = Some br \<longrightarrow> right (resolveBorders c) = Length br) \<and>
   (borders c EdgeTop = Some bt \<longrightarrow> top_side (resolveBorders c) = Length bt) \<and>
   (borders c EdgeBottom = Some bb \<longrightarrow> bottom_side (resolveBorders c) = Length bb) \<and>
   top_side (resolveInsets c) = inset_parser (inset_get c EdgeTop) \<and>
   bottom_side (resolveInsets c) = inset_parser (inset_get c EdgeBottom) \<and>
   left (resolveInsets c) =
     (if lastDirection c = DirectionRTL
      then (if inset_parser (inset_get c EdgeEnd) \<noteq> Auto
            then inset_parser (inset_get c EdgeEnd) else inset_parser (inset_get c EdgeLeft))
      else (if inset_parser (inset_get c EdgeStart) \<noteq> Auto
            then inset_parser (inset_get c EdgeStart) else inset_parser (inset_get c EdgeLeft))) \<and>
   right (resolveInsets c) =
     (if lastDirection c = DirectionRTL
      then (if inset_parser (inset_get c EdgeStart) \<noteq> Auto
            then inset_parser (inset_get c EdgeStart) else inset_parser (inset_get c EdgeRight))
      else (if inset_parser (inset_get c EdgeEnd) \<noteq> Auto
            then inset_parser (inset_get c EdgeEnd) else inset_parser (inset_get c EdgeRight)))"
  by (intro conjI[OF start_left_examples(1)] conjI[OF start_left_examples(2)]) (rule edge_precedence)

theorem physical_edge_precedence_witness:
  "margins full_cache EdgeLeft = Some (JsNumber (Num 20)) \<and>
   margins full_cache EdgeRight = Some (JsNumber (Num 30)) \<and>
   margins full_cache EdgeTop = Some (JsNumber (Num 40)) \<and>
   margins full_cache EdgeBottom = Some (JsNumber (Num 50)) \<and>
   paddings full_cache EdgeLeft = Some (JsNumber (Num 20)) \<and>
   paddings full_cache EdgeRight = Some (JsNumber (Num 30)) \<and>
   paddings full_cache EdgeTop = Some (JsNumber (Num 40)) \<and>
   paddings full_cache EdgeBottom = Some (JsNumber (Num 50)) \<and>
   borders full_cache EdgeLeft = Some (Num 20) \<and>
   borders full_cache EdgeRight = Some (Num 30) \<and>
   borders full_cache EdgeTop = Some (Num 40) \<and>
   borders full_cache EdgeBottom = Some (Num 50) \<and>
   margins full_cache EdgeStart = Some (JsNumber (Num 10)) \<and>
   lastDirection full_cache = DirectionLTR \<and>
   left (resolveMargins full_cache) = Length (Num 20) \<and>
   right (resolveMargins full_cache) = Length (Num 30) \<and>
   top_side (resolveMargins full_cache) = Length (Num 40) \<and>
   bottom_side (resolveMargins full_cache) = Length (Num 50) \<and>
   left (resolvePaddings full_cache) = Length (Num 20) \<and>
   right (resolvePaddings full_cache) = Length (Num 30) \<and>
   top_side (resolvePaddings full_cache) = Length (Num 40) \<and>
   bottom_side (resolvePaddings full_cache) = Length (Num 50) \<and>
   left (resolveBorders full_cache) = Length (Num 20) \<and>
   right (resolveBorders full_cache) = Length (Num 30) \<and>
   top_side (resolveBorders full_cache) = Length (Num 40) \<and>
   bottom_side (resolveBorders full_cache) = Length (Num 50) \<and>
   left (resolveInsets full_cache) = Length (Num 10) \<and>
   right (resolveInsets full_cache) = Length (Num 30) \<and>
   top_side (resolveInsets full_cache) = Length (Num 40) \<and>
   bottom_side (resolveInsets full_cache) = Length (Num 50)"
proof -
  have h:
    "margins full_cache EdgeLeft = Some (JsNumber (Num 20))"
    "margins full_cache EdgeRight = Some (JsNumber (Num 30))"
    "margins full_cache EdgeTop = Some (JsNumber (Num 40))"
    "margins full_cache EdgeBottom = Some (JsNumber (Num 50))"
    "paddings full_cache EdgeLeft = Some (JsNumber (Num 20))"
    "paddings full_cache EdgeRight = Some (JsNumber (Num 30))"
    "paddings full_cache EdgeTop = Some (JsNumber (Num 40))"
    "paddings full_cache EdgeBottom = Some (JsNumber (Num 50))"
    "borders full_cache EdgeLeft = Some (Num 20)"
    "borders full_cache EdgeRight = Some (Num 30)"
    "borders full_cache EdgeTop = Some (Num 40)"
    "borders full_cache EdgeBottom = Some (Num 50)"
    "margins full_cache EdgeStart = Some (JsNumber (Num 10))"
    "lastDirection full_cache = DirectionLTR"
    by (simp_all add: full_cache_def example_edges_def initial_styleCache_def)
  have i:
    "inset_parser (inset_get full_cache EdgeStart) = Length (Num 10)"
    "inset_parser (inset_get full_cache EdgeLeft) = Length (Num 20)"
    "inset_parser (inset_get full_cache EdgeRight) = Length (Num 30)"
    "inset_parser (inset_get full_cache EdgeEnd) = Auto"
    "inset_parser (inset_get full_cache EdgeTop) = Length (Num 40)"
    "inset_parser (inset_get full_cache EdgeBottom) = Length (Num 50)"
    by (simp_all add: full_cache_def example_edges_def initial_styleCache_def
          initial_insets_def inset_get_def)
  from physical_edge_precedence
         [of full_cache "JsNumber (Num 20)" "JsNumber (Num 30)" "JsNumber (Num 40)"
             "JsNumber (Num 50)" "JsNumber (Num 20)" "JsNumber (Num 30)" "JsNumber (Num 40)"
             "JsNumber (Num 50)" "Num 20" "Num 30" "Num 40" "Num 50"]
  show ?thesis by (simp add: h i)
qed

theorem inset_start_beats_left:
  "left (resolveInsets start_left_cache) = Length (Num 10) \<and>
   insets start_left_cache EdgeLeft = Some (InsetParsed (Length (Num 20))) \<and>
   insets start_left_cache EdgeStart = Some (InsetParsed (Length (Num 10))) \<and>
   lastDirection start_left_cache = DirectionLTR \<and>
   map_option insets (cache_of inset_scenario 0) = Some (insets start_left_cache) \<and>
   map_option lastDirection (cache_of inset_scenario 0) = Some DirectionLTR \<and>
   map_option inset (live_style inset_scenario 0) =
     Some \<lparr> left = Length (Num 10), right = Auto, top_side = Auto, bottom_side = Auto \<rparr>"
  by (simp add: inset_scenario_def eval_defs start_left_cache_def fun_upd_twist)

section \<open>Computed geometry\<close>

text \<open>
  C8. For every node and every state of the engine tree, \<open>getComputedRight\<close> is the sum of
  \<open>getComputedLeft\<close> and \<open>getComputedWidth\<close>, and \<open>getComputedBottom\<close> the sum of
  \<open>getComputedTop\<close> and \<open>getComputedHeight\<close> (all of them throw when the handle is not in
  the engine tree): right and bottom are computed from the stored rectangle at each call.
  \<open>getComputedLayout\<close> reports the same six values.
\<close>

theorem computed_right_bottom_derived:
  "getComputedRight w h = add_results (getComputedLeft w h) (getComputedWidth w h) \<and>
   getComputedBottom w h = add_results (getComputedTop w h) (getComputedHeight w h) \<and>
   map_sum id cl_right (getComputedLayout w h) = getComputedRight w h \<and>
   map_sum id cl_bottom (getComputedLayout w h) = getComputedBottom w h \<and>
   map_sum id cl_left (getComputedLayout w h) = getComputedLeft w h \<and>
   map_sum id cl_top (getComputedLayout w h) = getComputedTop w h \<and>
   map_sum id cl_width (getComputedLayout w h) = getComputedWidth w h \<and>
   map_sum id cl_height (getComputedLayout w h) = getComputedHeight w h"
  by (simp add: getComputedRight_def getComputedLeft_def getComputedWidth_def getLayout_def
        getComputedBottom_def getComputedTop_def getComputedHeight_def getComputedLayout_def
        add_results_def)

section \<open>A freshly created node\<close>

text \<open>
  C9. The constructor returns a node for which \<open>hasNewLayout()\<close> is true although no
  layout pass has run; with a config that does not use web defaults the node is dirty when
  the constructor returns, in its own flag and in the engine's.
\<close>

theorem fresh_node_has_new_layout_and_is_dirty:
  "(case Node_new ds web w of (h, r) \<Rightarrow> \<exists>w'. r = Done w' \<and> hasNewLayout w' h) \<and>
   (case Node_new ds False w of (h, r) \<Rightarrow>
      \<exists>w'. r = Done w' \<and> isDirty_field (nodes w' h) \<and> isDirty w' h = Inr True)"
  by (simp add: Node_new_def newLeaf_def Let_def setFlexDirection_def setAlignContent_def
        updateStyle_live markDirtyInternal_def update_node_def update_cache_def initial_node_def
        hasNewLayout_def isDirty_def tree_dirty_def mark_dirty_fields markedFrom_self)

section \<open>Edge getters and compound keys\<close>

lemma world_of_updateStyle:
  "world_of (updateStyle u h w) =
     Some (case updateStyle u h w of Done w' \<Rightarrow> w' | Threw e w' \<Rightarrow> w' | OutOfFuel \<Rightarrow> w)"
  by (simp add: updateStyle_def split: sum.splits)

text \<open>
  C10. With \<open>Edge.All\<close>, \<open>Edge.Horizontal\<close> or \<open>Edge.Vertical\<close>, \<open>getMargin\<close>,
  \<open>getPadding\<close> and \<open>getPosition\<close> return \<open>{ unit: Undefined, value: NaN }\<close> and
  \<open>getBorder\<close> returns \<open>NaN\<close>, in every state; in particular in the state that setting
  that same compound key to a definite value leaves behind.
\<close>

theorem compound_edge_getters_not_set:
  "getMargin w h EdgeAll = \<lparr> vunit = UnitUndefined, vvalue = NaN \<rparr> \<and>
   getMargin w h EdgeHorizontal = \<lparr> vunit = UnitUndefined, vvalue = NaN \<rparr> \<and>
   getMargin w h EdgeVertical = \<lparr> vunit = UnitUndefined, vvalue = NaN \<rparr> \<and>
   getPadding w h EdgeAll = \<lparr> vunit = UnitUndefined, vvalue = NaN \<rparr> \<and>
   getPadding w h EdgeHorizontal = \<lparr> vunit = UnitUndefined, vvalue = NaN \<rparr> \<and>
   getPadding w h EdgeVertical = \<lparr> vunit = UnitUndefined, vvalue = NaN \<rparr> \<and>
   getPosition w h EdgeAll = \<lparr> vunit = UnitUndefined, vvalue = NaN \<rparr> \<and>
   getPosition w h EdgeHorizontal = \<lparr> vunit = UnitUndefined, vvalue = NaN \<rparr> \<and>
   getPosition w h EdgeVertical = \<lparr> vunit = UnitUndefined, vvalue = NaN \<rparr> \<and>
   getBorder w h EdgeAll = NaN \<and>
   getBorder w h EdgeHorizontal = NaN \<and>
   getBorder w h EdgeVertical = NaN \<and>
   map_option (\<lambda>w'. getMargin w' h EdgeAll)
     (world_of (setMargin EdgeAll (Some (JsNumber (Num x))) h w))
     = Some \<lparr> vunit = UnitUndefined, vvalue = NaN \<rparr> \<and>
   map_option (\<lambda>w'. getMargin w' h EdgeHorizontal)
     (world_of (setMargin EdgeHorizontal (Some (JsNumber (Num x))) h w))
     = Some \<lparr> vunit = UnitUndefined, vvalue = NaN \<rparr> \<and>
   map_option (\<lambda>w'. getMargin w' h EdgeVertical)
     (world_of (setMargin EdgeVertical (Some (JsNumber (Num x))) h w))
     = Some \<lparr> vunit = UnitUndefined, vvalue = NaN \<rparr> \<and>
   map_option (\<lambda>w'. getPadding w' h EdgeAll)
     (world_of (setPadding EdgeAll (Some (JsNumber (Num x))) h w))
     = Some \<lparr> vunit = UnitUndefined, vvalue = NaN \<rparr> \<and>
   map_option (\<lambda>w'. getPadding w' h EdgeHorizontal)
     (world_of (setPadding EdgeHorizontal (Some (JsNumber (Num x))) h w))
     = Some \<lparr> vunit = UnitUndefined, vvalue = NaN \<rparr> \<and>
   map_option (\<lambda>w'. getPadding w' h EdgeVertical)
     (world_of (setPadding EdgeVertical (Some (JsNumber (Num x))) h w))
     = Some \<lparr> vunit = UnitUndefined, vvalue = NaN \<rparr> \<and>
   map_option (\<lambda>w'. getPosition w' h EdgeAll)
     (world_of (setPosition EdgeAll (Some (JsNumber (Num x))) h w))
     = Some \<lparr> vunit = UnitUndefined, vvalue = NaN \<rparr> \<and>
   map_option (\<lambda>w'. getPosition w' h EdgeHorizontal)
     (world_of (setPosition EdgeHorizontal (Some (JsNumber (Num x))) h w))
     = Some \<lparr> vunit = UnitUndefined, vvalue = NaN \<rparr> \<and>
   map_option (\<lambda>w'. getPosition w' h EdgeVertical)
     (world_of (setPosition EdgeVertical (Some (JsNumber (Num x))) h w))
     = Some \<lparr> vunit = UnitUndefined, vvalue = NaN \<rparr> \<and>
   map_option (\<lambda>w'. getBorder w' h EdgeAll)
     (world_of (setBorder EdgeAll (Some (Num x)) h w)) = Some NaN \<and>
   map_option (\<lambda>w'. getBorder w' h EdgeHorizontal)
     (world_of (setBorder EdgeHorizontal (Some (Num x)) h w)) = Some NaN \<and>
   map_option (\<lambda>w'. getBorder w' h EdgeVertical)
     (world_of (setBorder EdgeVertical (Some (Num x)) h w)) = Some NaN"
  by (simp add: getMargin_def getPadding_def getPosition_def getBorder_def undefinedValue_def
        setMargin_def setPadding_def setPosition_def setBorder_def resolveMarginsToTaffy_def
        resolvePaddingsToTaffy_def resolveBordersToTaffy_def syncStyle_def
        world_of_updateStyle Let_def)

section \<open>Traversals and what a layout pass leaves unchanged\<close>


lemma le_foldr_max: "x \<in> set xs \<Longrightarrow> (x::nat) \<le> foldr max xs a"
  by (induction xs) (auto simp: le_max_iff_disj)

lemma height_child: "t \<in> set ts \<Longrightarrow> height t < height (Shape h ts)"
  using le_foldr_max[of "height t" "map height ts" 0] by (auto simp: less_Suc_eq_le)

lemma forEach_children:
  assumes step: "\<And>t w. t \<in> set ts \<Longrightarrow> I w \<Longrightarrow>
      \<exists>w'. F (rootOf t) w = Done w' \<and> I w' \<and> (\<forall>n\<in>set (preorder t). Q n w') \<and> (\<forall>n. Q n w \<longrightarrow> Q n w')"
  shows "I w \<Longrightarrow>
     \<exists>w'. forEach F (map rootOf ts) w = Done w' \<and> I w' \<and>
          (\<forall>t\<in>set ts. \<forall>n\<in>set (preorder t). Q n w') \<and> (\<forall>n. Q n w \<longrightarrow> Q n w')"
  using step
proof (induction ts arbitrary: w)
  case Nil
  then show ?case by simp
next
  case (Cons t ts)
  from Cons.prems(2)[of t w] Cons.prems(1) obtain w1 where
    w1: "F (rootOf t) w = Done w1" "I w1" "\<forall>n\<in>set (preorder t). Q n w1" "\<forall>n. Q n w \<longrightarrow> Q n w1"
    by auto
  have "\<exists>w'. forEach F (map rootOf ts) w1 = Done w' \<and> I w' \<and>
          (\<forall>t\<in>set ts. \<forall>n\<in>set (preorder t). Q n w') \<and> (\<forall>n. Q n w1 \<longrightarrow> Q n w')"
    using Cons.IH[OF w1(2)] Cons.prems(2) by simp
  then obtain w2 where
    w2: "forEach F (map rootOf ts) w1 = Done w2" "I w2"
        "\<forall>t\<in>set ts. \<forall>n\<in>set (preorder t). Q n w2" "\<forall>n. Q n w1 \<longrightarrow> Q n w2"
    by blast
  show ?case using w1 w2 by auto
qed

lemma traverse:
  fixes T :: "nat \<Rightarrow> handle \<Rightarrow> world \<Rightarrow> outcome"
  assumes T_Suc: "\<And>k h w. T (Suc k) h w =
       andThen (V h w) (\<lambda>w1. forEach (\<lambda>c w2. T k c (P h c w2)) (childList (nodes w1 h)) w1)"
    and visit: "\<And>h w. I w \<Longrightarrow> R h w \<Longrightarrow> h \<in> S \<Longrightarrow>
       \<exists>w'. V h w = Done w' \<and> I w' \<and> Q h w' \<and> (\<forall>n. Q n w \<longrightarrow> Q n w')"
    and pre: "\<And>p c w. I w \<Longrightarrow> Q p w \<Longrightarrow>
       I (P p c w) \<and> R c (P p c w) \<and> (\<forall>n. Q n w \<longrightarrow> Q n (P p c w))"
    and shape: "\<And>w h. I w \<Longrightarrow> childList (nodes w h) = childList (nodes w0 h)"
  shows "unfolds w0 t \<Longrightarrow> set (preorder t) \<subseteq> S \<Longrightarrow> height t \<le> k \<Longrightarrow> I w \<Longrightarrow> R (rootOf t) w \<Longrightarrow>
     \<exists>w'. T k (rootOf t) w = Done w' \<and> I w' \<and> (\<forall>n\<in>set (preorder t). Q n w') \<and>
          (\<forall>n. Q n w \<longrightarrow> Q n w')"
proof (induction t arbitrary: k w)
  case (Shape h ts)
  obtain k' where k: "k = Suc k'" using Shape.prems(3) by (cases k) auto
  from visit[OF Shape.prems(4), of h] Shape.prems(2,5) obtain w1 where
    w1: "V h w = Done w1" "I w1" "Q h w1" "\<forall>n. Q n w \<longrightarrow> Q n w1" by auto
  have cl: "childList (nodes w1 h) = map rootOf ts"
    using shape[OF w1(2), of h] Shape.prems(1) by simp
  have step: "\<exists>w'. T k' (rootOf t) (P h (rootOf t) w) = Done w' \<and> (I w' \<and> Q h w') \<and>
                 (\<forall>n\<in>set (preorder t). Q n w') \<and> (\<forall>n. Q n w \<longrightarrow> Q n w')"
    if t: "t \<in> set ts" and Iw: "I w \<and> Q h w" for t w
  proof -
    have u: "unfolds w0 t" using Shape.prems(1) t by (simp add: list_all_iff)
    have s: "set (preorder t) \<subseteq> S" using Shape.prems(2) t by auto
    have hgt: "height t \<le> k'" using height_child[OF t, of h] Shape.prems(3) k by simp
    from pre[of w h "rootOf t"] Iw have IP: "I (P h (rootOf t) w)"
      and RP: "R (rootOf t) (P h (rootOf t) w)"
      and QP: "\<forall>n. Q n w \<longrightarrow> Q n (P h (rootOf t) w)" by auto
    from Shape.IH[OF t u s hgt IP RP] obtain w' where
      "T k' (rootOf t) (P h (rootOf t) w) = Done w'" "I w'" "\<forall>n\<in>set (preorder t). Q n w'"
      "\<forall>n. Q n (P h (rootOf t) w) \<longrightarrow> Q n w'" by blast
    with QP Iw show ?thesis by auto
  qed
  have Iw1: "I w1 \<and> Q h w1" using w1 by simp
  from forEach_children[of ts "\<lambda>w. I w \<and> Q h w" "\<lambda>c w2. T k' c (P h c w2)" Q, OF step Iw1]
  obtain w2 where
    w2: "forEach (\<lambda>c w2. T k' c (P h c w2)) (map rootOf ts) w1 = Done w2" "I w2"
        "\<forall>t\<in>set ts. \<forall>n\<in>set (preorder t). Q n w2" "\<forall>n. Q n w1 \<longrightarrow> Q n w2"
    by blast
  show ?case using k T_Suc[of k' h w] w1 cl w2 by auto
qed

lemma frame_refl: "frame X w w"
  by (simp add: frame_def)

lemma frame_trans: "frame X a b \<Longrightarrow> frame Y b c \<Longrightarrow> frame (X \<union> Y) a c"
  unfolding frame_def by (intro conjI allI) (simp_all, metis)

lemma frame_trans0: "frame X a b \<Longrightarrow> frame {} b c \<Longrightarrow> frame X a c"
  using frame_trans[of X a b "{}" c] by simp

lemma frame_childList: "frame X w w' \<Longrightarrow> childList (nodes w' h) = childList (nodes w h)"
  by (simp add: frame_def)

lemma frame_dom: "frame X w w' \<Longrightarrow> dom (styles (tree w')) = dom (styles (tree w))"
  by (simp add: frame_def)

lemma frame_flexDirection:
  "frame X w w' \<Longrightarrow> flexDirection (styleCache (nodes w' h)) = flexDirection (styleCache (nodes w h))"
proof -
  assume "frame X w w'"
  then have "(styleCache (nodes w' h))\<lparr> lastDirection := DirectionLTR \<rparr> =
             (styleCache (nodes w h))\<lparr> lastDirection := DirectionLTR \<rparr>"
    by (simp add: frame_def)
  then have "flexDirection ((styleCache (nodes w' h))\<lparr> lastDirection := DirectionLTR \<rparr>) =
             flexDirection ((styleCache (nodes w h))\<lparr> lastDirection := DirectionLTR \<rparr>)"
    by (rule arg_cong)
  then show ?thesis by simp
qed

lemma markDirtyInternal_fields:
  "tree (markDirtyInternal h w) = tree w"
  "instanceCache (markDirtyInternal h w) = instanceCache w"
  "nodes (markDirtyInternal h w) = (nodes w)(h := (nodes w h)\<lparr> isDirty_field := True \<rparr>)"
  by (auto simp: markDirtyInternal_def Let_def update_node_def fun_eq_iff)

lemma updateStyle_effect:
  assumes "h \<in> dom (styles (tree w))"
  shows "\<exists>w'. updateStyle u h w = Done w' \<and>
     styles (tree w') = (styles (tree w))(h \<mapsto> u (the (styles (tree w) h))) \<and>
     dirtyFlags (tree w') =
       (\<lambda>n. n \<in> set (markedFrom (nextId (tree w)) (tparent (tree w)) h) \<or>
            dirtyFlags (tree w) n) \<and>
     layouts (tree w') = layouts (tree w) \<and>
     tparent (tree w') = tparent (tree w) \<and>
     tchildren (tree w') = tchildren (tree w) \<and>
     nextId (tree w') = nextId (tree w) \<and>
     instanceCache w' = instanceCache w \<and>
     nodes w' = (nodes w)(h := (nodes w h)\<lparr> isDirty_field := True \<rparr>)"
proof -
  from assms obtain s where s: "styles (tree w) h = Some s" by auto
  show ?thesis
    by (simp add: updateStyle_live[OF s] s markDirtyInternal_fields mark_dirty_fields fun_eq_iff)
qed

lemma updateStyle_frame:
  assumes "h \<in> dom (styles (tree w))"
    and "\<And>s. X = {} \<Longrightarrow> margin (u s) = margin s \<and> padding (u s) = padding s \<and> border (u s) = border s"
    and "X = {} \<or> X = {h}"
  shows "\<exists>w'. updateStyle u h w = Done w' \<and> frame X w w' \<and>
     styles (tree w') = (styles (tree w))(h \<mapsto> u (the (styles (tree w) h))) \<and>
     dirtyFlags (tree w') h \<and> (\<forall>n. dirtyFlags (tree w) n \<longrightarrow> dirtyFlags (tree w') n) \<and>
     layouts (tree w') = layouts (tree w) \<and>
     nodes w' = (nodes w)(h := (nodes w h)\<lparr> isDirty_field := True \<rparr>)"
proof -
  from updateStyle_effect[OF assms(1), of u] obtain w' where
    w': "updateStyle u h w = Done w'"
     "styles (tree w') = (styles (tree w))(h \<mapsto> u (the (styles (tree w) h)))"
     "dirtyFlags (tree w') =
       (\<lambda>n. n \<in> set (markedFrom (nextId (tree w)) (tparent (tree w)) h) \<or>
            dirtyFlags (tree w) n)"
     "layouts (tree w') = layouts (tree w)"
     "instanceCache w' = instanceCache w"
     "nodes w' = (nodes w)(h := (nodes w h)\<lparr> isDirty_field := True \<rparr>)"
     "tparent (tree w') = tparent (tree w)" "nextId (tree w') = nextId (tree w)" by blast
  from assms(1) obtain s where s: "styles (tree w) h = Some s" by auto
  have "frame X w w'"
    using assms(2,3) assms(1) s unfolding frame_def w'(2,5,6,7,8) by auto
  moreover have "dirtyFlags (tree w') h" "\<forall>n. dirtyFlags (tree w) n \<longrightarrow> dirtyFlags (tree w') n"
    by (simp_all add: w'(3) markedFrom_self)
  ultimately show ?thesis using w'(1,2,4,6) by blast
qed

lemma updateStyle_cache:
  assumes "h \<in> dom (styles (tree w))" "updateStyle u h w = Done w'"
  shows "styleCache (nodes w' n) = styleCache (nodes w n)"
  using updateStyle_effect[OF assms(1), of u] assms(2) by auto

lemma flip_walk:
  assumes "unfolds w t" "set (preorder t) \<subseteq> dom (styles (tree w))" "height t \<le> k"
  shows "\<exists>w'. applyRTLFlip k (rootOf t) w = Done w' \<and> frame {} w w' \<and>
     (\<forall>n. styleCache (nodes w' n) = styleCache (nodes w n)) \<and>
     (\<forall>n\<in>set (preorder t).
         map_option flex_direction (styles (tree w') n) =
           Some (fromYogaFlexDirection (flippedFd (flexDirection (styleCache (nodes w' n))))))"
proof -
  let ?V = "\<lambda>h w. updateStyle
      (\<lambda>s. s\<lparr> flex_direction :=
                fromYogaFlexDirection (flippedFd (flexDirection (styleCache (nodes w h)))) \<rparr>) h w"
  let ?I = "\<lambda>a. frame {} w a \<and> (\<forall>n. styleCache (nodes a n) = styleCache (nodes w n))"
  let ?Q = "\<lambda>n w'. map_option flex_direction (styles (tree w') n) =
           Some (fromYogaFlexDirection (flippedFd (flexDirection (styleCache (nodes w' n)))))"
  have visit: "\<exists>w'. ?V h a = Done w' \<and> ?I w' \<and> ?Q h w' \<and> (\<forall>n. ?Q n a \<longrightarrow> ?Q n w')"
    if "?I a" "True" "h \<in> dom (styles (tree w))" for h a
  proof -
    have live: "h \<in> dom (styles (tree a))" using that(1,3) frame_dom by blast
    from updateStyle_frame[OF live, of "{}"
        "\<lambda>s. s\<lparr> flex_direction :=
                fromYogaFlexDirection (flippedFd (flexDirection (styleCache (nodes a h)))) \<rparr>"]
    obtain w' where w': "?V h a = Done w'" "frame {} a w'"
      "styles (tree w') = (styles (tree a))(h \<mapsto>
          (the (styles (tree a) h))\<lparr> flex_direction :=
              fromYogaFlexDirection (flippedFd (flexDirection (styleCache (nodes a h)))) \<rparr>)"
      "nodes w' = (nodes a)(h := (nodes a h)\<lparr> isDirty_field := True \<rparr>)"
      by auto
    have "frame {} w w'" using frame_trans0[OF _ w'(2)] that(1) by blast
    moreover have "\<forall>n. styleCache (nodes w' n) = styleCache (nodes w n)"
      using that(1) by (simp add: w'(4))
    moreover have "?Q h w'" by (simp add: w'(3,4))
    moreover have "\<forall>n. ?Q n a \<longrightarrow> ?Q n w'" by (simp add: w'(3,4))
    ultimately show ?thesis using w'(1) by blast
  qed
  have T_Suc: "applyRTLFlip (Suc k) h a =
       andThen (?V h a) (\<lambda>w1. forEach (\<lambda>c w2. applyRTLFlip k c w2) (childList (nodes w1 h)) w1)"
    for k h a by (simp add: Let_def)
  have pre: "?I a \<and> True \<and> (\<forall>n. ?Q n a \<longrightarrow> ?Q n a)" if "?I a" for a
    using that by simp
  have shape: "childList (nodes a h) = childList (nodes w h)" if "?I a" for a h
    using that frame_childList by blast
  have I0: "?I w" by (simp add: frame_refl)
  from traverse[where T = applyRTLFlip and V = ?V and P = "\<lambda>p c w. w" and I = ?I
                  and R = "\<lambda>h a. True" and S = "dom (styles (tree w))" and Q = ?Q
                  and ?w0.0 = w and t = t and k = k and w = w,
                OF T_Suc visit pre shape assms I0]
  show ?thesis by blast
qed

lemma restore_walk:
  assumes "unfolds w t" "set (preorder t) \<subseteq> dom (styles (tree w))" "height t \<le> k"
  shows "\<exists>w'. restoreFlexDirection k (rootOf t) w = Done w' \<and> frame {} w w' \<and>
     (\<forall>n. styleCache (nodes w' n) = styleCache (nodes w n)) \<and>
     (\<forall>n\<in>set (preorder t).
         map_option flex_direction (styles (tree w') n) =
           Some (fromYogaFlexDirection (flexDirection (styleCache (nodes w' n)))) \<and>
         dirtyFlags (tree w') n)"
proof -
  let ?V = "\<lambda>h w. updateStyle
      (\<lambda>s. s\<lparr> flex_direction := fromYogaFlexDirection (flexDirection (styleCache (nodes w h))) \<rparr>)
      h w"
  let ?I = "\<lambda>a. frame {} w a \<and> (\<forall>n. styleCache (nodes a n) = styleCache (nodes w n))"
  let ?Q = "\<lambda>n w'. map_option flex_direction (styles (tree w') n) =
           Some (fromYogaFlexDirection (flexDirection (styleCache (nodes w' n)))) \<and>
           dirtyFlags (tree w') n"
  have visit: "\<exists>w'. ?V h a = Done w' \<and> ?I w' \<and> ?Q h w' \<and> (\<forall>n. ?Q n a \<longrightarrow> ?Q n w')"
    if "?I a" "True" "h \<in> dom (styles (tree w))" for h a
  proof -
    have live: "h \<in> dom (styles (tree a))" using that(1,3) frame_dom by blast
    from updateStyle_frame[OF live, of "{}"
        "\<lambda>s. s\<lparr> flex_direction :=
                fromYogaFlexDirection (flexDirection (styleCache (nodes a h))) \<rparr>"]
    obtain w' where w': "?V h a = Done w'" "frame {} a w'"
      "styles (tree w') = (styles (tree a))(h \<mapsto>
          (the (styles (tree a) h))\<lparr> flex_direction :=
              fromYogaFlexDirection (flexDirection (styleCache (nodes a h))) \<rparr>)"
      "dirtyFlags (tree w') h" "\<forall>n. dirtyFlags (tree a) n \<longrightarrow> dirtyFlags (tree w') n"
      "nodes w' = (nodes a)(h := (nodes a h)\<lparr> isDirty_field := True \<rparr>)"
      by auto
    have "frame {} w w'" using frame_trans0[OF _ w'(2)] that(1) by blast
    moreover have "\<forall>n. styleCache (nodes w' n) = styleCache (nodes w n)"
      using that(1) by (simp add: w'(6))
    moreover have "?Q h w'" by (simp add: w'(3,4,6))
    moreover have "\<forall>n. ?Q n a \<longrightarrow> ?Q n w'" using w'(5) by (simp add: w'(3,6))
    ultimately show ?thesis using w'(1) by blast
  qed
  have T_Suc: "restoreFlexDirection (Suc k) h a =
       andThen (?V h a)
         (\<lambda>w1. forEach (\<lambda>c w2. restoreFlexDirection k c w2) (childList (nodes w1 h)) w1)"
    for k h a by (simp add: Let_def)
  have pre: "?I a \<and> True \<and> (\<forall>n. ?Q n a \<longrightarrow> ?Q n a)" if "?I a" for a
    using that by simp
  have shape: "childList (nodes a h) = childList (nodes w h)" if "?I a" for a h
    using that frame_childList by blast
  have I0: "?I w" by (simp add: frame_refl)
  from traverse[where T = restoreFlexDirection and V = ?V and P = "\<lambda>p c w. w"
                  and I = ?I and R = "\<lambda>h a. True" and S = "dom (styles (tree w))"
                  and Q = ?Q and ?w0.0 = w and t = t and k = k and w = w,
                OF T_Suc visit pre shape assms I0]
  show ?thesis by blast
qed

lemma insets_walk:
  assumes "unfolds w t" "set (preorder t) \<subseteq> dom (styles (tree w))" "height t \<le> k"
  shows "\<exists>w'. resolveInsetsToTaffy k (rootOf t) w = Done w' \<and> frame {} w w' \<and>
     (\<forall>n\<in>set (preorder t).
        lastDirection (styleCache (nodes w' n)) = lastDirection (styleCache (nodes w (rootOf t))))"
proof -
  let ?d = "lastDirection (styleCache (nodes w (rootOf t)))"
  let ?V = "\<lambda>h w.
      (if sc_position (styleCache (nodes w h)) = PositionTypeStatic
       then updateStyle (\<lambda>s. s\<lparr> inset := autoRect \<rparr>) h w
       else updateStyle (\<lambda>s. s\<lparr> inset := resolveInsets (styleCache (nodes w h)) \<rparr>) h w)"
  let ?P = "\<lambda>p c w2. update_cache c
      (\<lambda>c. c\<lparr> lastDirection := lastDirection (styleCache (nodes w2 p)) \<rparr>) w2"
  let ?Q = "\<lambda>n w'. lastDirection (styleCache (nodes w' n)) = ?d"
  have visit: "\<exists>w'. ?V h a = Done w' \<and> frame {} w w' \<and> ?Q h w' \<and> (\<forall>n. ?Q n a \<longrightarrow> ?Q n w')"
    if "frame {} w a" "?Q h a" "h \<in> dom (styles (tree w))" for h a
  proof -
    have live: "h \<in> dom (styles (tree a))" using that(1,3) frame_dom by blast
    from updateStyle_frame[OF live, of "{}" "\<lambda>s. s\<lparr> inset := autoRect \<rparr>"]
    obtain w1 where w1: "updateStyle (\<lambda>s. s\<lparr> inset := autoRect \<rparr>) h a = Done w1"
      "frame {} a w1" "nodes w1 = (nodes a)(h := (nodes a h)\<lparr> isDirty_field := True \<rparr>)"
      by auto
    from updateStyle_frame[OF live, of "{}"
       "\<lambda>s. s\<lparr> inset := resolveInsets (styleCache (nodes a h)) \<rparr>"]
    obtain w2 where w2:
      "updateStyle (\<lambda>s. s\<lparr> inset := resolveInsets (styleCache (nodes a h)) \<rparr>) h a = Done w2"
      "frame {} a w2" "nodes w2 = (nodes a)(h := (nodes a h)\<lparr> isDirty_field := True \<rparr>)"
      by auto
    show ?thesis
      using w1 w2 that(2) frame_trans0[OF that(1) w1(2)] frame_trans0[OF that(1) w2(2)]
      by simp
  qed
  have T_Suc: "resolveInsetsToTaffy (Suc k) h a =
       andThen (?V h a)
         (\<lambda>w1. forEach (\<lambda>c w2. resolveInsetsToTaffy k c (?P h c w2)) (childList (nodes w1 h)) w1)"
    for k h a by simp
  have pre: "frame {} w (?P p c a) \<and> ?Q c (?P p c a) \<and> (\<forall>n. ?Q n a \<longrightarrow> ?Q n (?P p c a))"
    if "frame {} w a" "?Q p a" for p c a
  proof -
    have "frame {} a (?P p c a)"
      by (simp add: frame_def update_cache_def update_node_def)
    with that(1) have "frame {} w (?P p c a)" using frame_trans0 by blast
    with that(2) show ?thesis by (simp add: update_cache_def update_node_def)
  qed
  have shape: "childList (nodes a h) = childList (nodes w h)" if "frame {} w a" for a h
    using that by (rule frame_childList)
  have R0: "?Q (rootOf t) w" by simp
  from traverse[where T = resolveInsetsToTaffy and V = ?V and P = ?P
                  and I = "frame {} w" and R = ?Q and S = "dom (styles (tree w))" and Q = ?Q
                  and ?w0.0 = w and t = t and k = k and w = w,
                OF T_Suc visit pre shape assms frame_refl R0]
  show ?thesis by blast
qed

lemma marknew_walk:
  assumes "unfolds w t" "height t \<le> k"
  shows "\<exists>w'. markNewLayoutRecursive k (rootOf t) w = Done w' \<and> frame {} w w' \<and>
     tree w' = tree w \<and> (\<forall>n. styleCache (nodes w' n) = styleCache (nodes w n)) \<and>
     (\<forall>n\<in>set (preorder t). \<not> isDirty_field (nodes w' n) \<and> hasNewLayout_field (nodes w' n))"
proof -
  let ?V = "\<lambda>h w. Done (update_node h (\<lambda>n. n\<lparr> isDirty_field := False, hasNewLayout_field := True \<rparr>) w)"
  let ?I = "\<lambda>a. frame {} w a \<and> tree a = tree w \<and>
                (\<forall>n. styleCache (nodes a n) = styleCache (nodes w n))"
  let ?Q = "\<lambda>n w'. \<not> isDirty_field (nodes w' n) \<and> hasNewLayout_field (nodes w' n)"
  have visit: "\<exists>w'. ?V h a = Done w' \<and> ?I w' \<and> ?Q h w' \<and> (\<forall>n. ?Q n a \<longrightarrow> ?Q n w')"
    if "?I a" "True" "h \<in> UNIV" for h a
  proof -
    have "frame {} a (update_node h (\<lambda>n. n\<lparr> isDirty_field := False, hasNewLayout_field := True \<rparr>) a)"
      by (simp add: frame_def update_node_def)
    with that(1) have "frame {} w (update_node h (\<lambda>n. n\<lparr> isDirty_field := False, hasNewLayout_field := True \<rparr>) a)"
      using frame_trans0 by blast
    with that(1) show ?thesis by (simp add: update_node_def)
  qed
  have T_Suc: "markNewLayoutRecursive (Suc k) h a =
       andThen (?V h a)
         (\<lambda>w1. forEach (\<lambda>c w2. markNewLayoutRecursive k c w2) (childList (nodes w1 h)) w1)"
    for k h a by (simp add: Let_def)
  have pre: "?I a \<and> True \<and> (\<forall>n. ?Q n a \<longrightarrow> ?Q n a)" if "?I a" for a
    using that by simp
  have shape: "childList (nodes a h) = childList (nodes w h)" if "?I a" for a h
    using that frame_childList by blast
  have I0: "?I w" by (simp add: frame_refl)
  have sub: "set (preorder t) \<subseteq> UNIV" by simp
  from traverse[where T = markNewLayoutRecursive and V = ?V and P = "\<lambda>p c w. w"
                  and I = ?I and R = "\<lambda>h a. True" and S = UNIV and Q = ?Q
                  and ?w0.0 = w and t = t and k = k and w = w,
                OF T_Suc visit pre shape assms(1) sub assms(2) I0]
  show ?thesis by blast
qed

lemma unfolds_frame: "frame X w w' \<Longrightarrow> unfolds w t \<Longrightarrow> unfolds w' t"
  by (induction t) (auto simp: frame_childList list_all_iff)

lemma rootOf_preorder: "rootOf t \<in> set (preorder t)"
  by (cases t) simp


lemma pass_prefix:
  assumes "unfolds w t" "set (preorder t) \<subseteq> dom (styles (tree w))" "height t \<le> k"
  shows "\<exists>w4. frame {rootOf t} w w4 \<and>
     (\<forall>n\<in>set (preorder t).
        lastDirection (styleCache (nodes w4 n)) = effectiveDirection dir w (rootOf t)) \<and>
     beforeCompute k dir (rootOf t) w =
       (if effectiveDirection dir w (rootOf t) = DirectionRTL
        then applyRTLFlip k (rootOf t) w4 else Done w4)"
proof -
  let ?h = "rootOf t"
  define w0 where
    "w0 = update_cache ?h (\<lambda>c. c\<lparr> lastDirection := effectiveDirection dir w ?h \<rparr>) w"
  have f0: "frame {} w w0"
    by (simp add: w0_def frame_def update_cache_def update_node_def)
  have d0: "lastDirection (styleCache (nodes w0 ?h)) = effectiveDirection dir w ?h"
    by (simp add: w0_def update_cache_def update_node_def)
  have live: "?h \<in> dom (styles (tree w))" using assms(2) rootOf_preorder by blast
  have l0: "?h \<in> dom (styles (tree w0))" using live frame_dom[OF f0] by simp
  from updateStyle_frame[OF l0, of "{?h}"
         "\<lambda>s. s\<lparr> border := resolveBorders (styleCache (nodes w0 ?h)) \<rparr>"]
  obtain w1 where w1: "resolveBordersToTaffy ?h w0 = Done w1" "frame {?h} w0 w1"
    by (auto simp: resolveBordersToTaffy_def)
  have l1: "?h \<in> dom (styles (tree w1))" using l0 frame_dom[OF w1(2)] by simp
  from updateStyle_frame[OF l1, of "{?h}"
         "\<lambda>s. s\<lparr> margin := resolveMargins (styleCache (nodes w1 ?h)) \<rparr>"]
  obtain w2 where w2: "resolveMarginsToTaffy ?h w1 = Done w2" "frame {?h} w1 w2"
    by (auto simp: resolveMarginsToTaffy_def)
  have l2: "?h \<in> dom (styles (tree w2))" using l1 frame_dom[OF w2(2)] by simp
  from updateStyle_frame[OF l2, of "{?h}"
         "\<lambda>s. s\<lparr> padding := resolvePaddings (styleCache (nodes w2 ?h)) \<rparr>"]
  obtain w3 where w3: "resolvePaddingsToTaffy ?h w2 = Done w3" "frame {?h} w2 w3"
    by (auto simp: resolvePaddingsToTaffy_def)
  have d3: "lastDirection (styleCache (nodes w3 ?h)) = effectiveDirection dir w ?h"
    using d0 updateStyle_cache[OF l0 w1(1)[unfolded resolveBordersToTaffy_def], of ?h]
      updateStyle_cache[OF l1 w2(1)[unfolded resolveMarginsToTaffy_def], of ?h]
      updateStyle_cache[OF l2 w3(1)[unfolded resolvePaddingsToTaffy_def], of ?h]
    by simp
  have f3: "frame {?h} w w3"
    using frame_trans[OF frame_trans[OF frame_trans[OF f0 w1(2)] w2(2)] w3(2)] by simp
  have u3: "unfolds w3 t" using unfolds_frame[OF f3 assms(1)] .
  have s3: "set (preorder t) \<subseteq> dom (styles (tree w3))" using assms(2) frame_dom[OF f3] by simp
  from insets_walk[OF u3 s3 assms(3)] obtain w4 where
    w4: "resolveInsetsToTaffy k ?h w3 = Done w4" "frame {} w3 w4"
        "\<forall>n\<in>set (preorder t).
           lastDirection (styleCache (nodes w4 n)) = lastDirection (styleCache (nodes w3 ?h))"
    by blast
  have f4: "frame {?h} w w4" using frame_trans0[OF f3 w4(2)] .
  have "beforeCompute k dir ?h w =
       (if effectiveDirection dir w ?h = DirectionRTL then applyRTLFlip k ?h w4 else Done w4)"
    unfolding beforeCompute_def Let_def w0_def[symmetric]
    by (simp only: w1(1) w2(1) w3(1) w4(1) andThen.simps)
  with f4 w4(3) d3 show ?thesis by auto
qed

lemma compute_result:
  assumes "h \<in> dom (styles (tree w))" "eng w h aw ah = Computed ls ds"
  shows "\<exists>w'. computeLayoutWithMeasure eng h aw ah w = Done w' \<and> frame {} w w' \<and>
           styles (tree w') = styles (tree w) \<and> nodes w' = nodes w \<and>
           dirtyFlags (tree w') = ds \<and> layouts (tree w') = ls"
  using assms by (auto simp: computeLayoutWithMeasure_def frame_def)

lemma compute_failure:
  assumes "h \<in> dom (styles (tree w))" "eng w h aw ah = ComputeError"
  shows "computeLayoutWithMeasure eng h aw ah w = Threw ComputeFailed w"
  using assms by (simp add: computeLayoutWithMeasure_def)

section \<open>The layout pass as a whole\<close>

lemma andThen_assoc: "andThen (andThen r f) g = andThen r (\<lambda>x. andThen (f x) g)"
  by (cases r) simp_all

lemma calculateLayout_split:
  "calculateLayout eng k wd ht dir h w =
     andThen (beforeCompute k dir h w) (\<lambda>w5.
     andThen (computeLayoutWithMeasure eng h
                (if isNaN wd then MaxContent else Definite wd)
                (if isNaN ht then MaxContent else Definite ht) w5) (\<lambda>w6.
     andThen (if effectiveDirection dir w h = DirectionRTL
              then restoreFlexDirection k h w6 else Done w6)
       (markNewLayoutRecursive k h)))"
  by (simp add: calculateLayout_def beforeCompute_def Let_def andThen_assoc)

lemma before_compute:
  assumes "unfolds w t" "set (preorder t) \<subseteq> dom (styles (tree w))" "height t \<le> k"
  shows "\<exists>w5. beforeCompute k dir (rootOf t) w = Done w5 \<and> frame {rootOf t} w w5 \<and>
     (\<forall>n\<in>set (preorder t).
        lastDirection (styleCache (nodes w5 n)) = effectiveDirection dir w (rootOf t)) \<and>
     (effectiveDirection dir w (rootOf t) = DirectionRTL \<longrightarrow>
        (\<forall>n\<in>set (preorder t).
           map_option flex_direction (styles (tree w5) n) =
             Some (fromYogaFlexDirection (flippedFd (flexDirection (styleCache (nodes w5 n)))))))"
proof -
  let ?h = "rootOf t"
  let ?d = "effectiveDirection dir w ?h"
  from pass_prefix[OF assms(1,2,3), of dir] obtain w4 where
    f4: "frame {?h} w w4"
    and d4: "\<forall>n\<in>set (preorder t). lastDirection (styleCache (nodes w4 n)) = ?d"
    and eq: "beforeCompute k dir ?h w =
               (if ?d = DirectionRTL then applyRTLFlip k ?h w4 else Done w4)"
    by blast
  have u4: "unfolds w4 t" using unfolds_frame[OF f4 assms(1)] .
  have s4: "set (preorder t) \<subseteq> dom (styles (tree w4))" using assms(2) frame_dom[OF f4] by simp
  show ?thesis
  proof (cases "?d = DirectionRTL")
    case True
    from flip_walk[OF u4 s4 assms(3)] obtain w5 where
      w5: "applyRTLFlip k ?h w4 = Done w5" "frame {} w4 w5"
      "\<forall>n. styleCache (nodes w5 n) = styleCache (nodes w4 n)"
      "\<forall>n\<in>set (preorder t).
         map_option flex_direction (styles (tree w5) n) =
           Some (fromYogaFlexDirection (flippedFd (flexDirection (styleCache (nodes w5 n)))))"
      by blast
    have "frame {?h} w w5" using frame_trans0[OF f4 w5(2)] .
    moreover have "\<forall>n\<in>set (preorder t). lastDirection (styleCache (nodes w5 n)) = ?d"
      using d4 w5(3) by simp
    ultimately show ?thesis using eq True w5(1,4) by simp
  next
    case False
    with eq f4 d4 show ?thesis by simp
  qed
qed

lemma after_compute:
  assumes "unfolds w t" "set (preorder t) \<subseteq> dom (styles (tree w))" "height t \<le> k"
    and "beforeCompute k dir (rootOf t) w = Done w5" "frame {rootOf t} w w5"
    and "\<forall>n\<in>set (preorder t).
           lastDirection (styleCache (nodes w5 n)) = effectiveDirection dir w (rootOf t)"
    and "eng w5 (rootOf t) (if isNaN wd then MaxContent else Definite wd)
           (if isNaN ht then MaxContent else Definite ht) = Computed ls ds"
  shows "\<exists>w'. calculateLayout eng k wd ht dir (rootOf t) w = Done w' \<and>
           frame {rootOf t} w w' \<and>
           (\<forall>n\<in>set (preorder t).
              \<not> isDirty_field (nodes w' n) \<and> hasNewLayout_field (nodes w' n) \<and>
              lastDirection (styleCache (nodes w' n)) = effectiveDirection dir w (rootOf t)) \<and>
           (if effectiveDirection dir w (rootOf t) = DirectionRTL
            then (\<forall>n\<in>set (preorder t).
                    map_option flex_direction (styles (tree w') n) =
                      Some (fromYogaFlexDirection (flexDirection (styleCache (nodes w' n)))) \<and>
                    dirtyFlags (tree w') n)
            else dirtyFlags (tree w') = ds)"
proof -
  let ?h = "rootOf t"
  let ?d = "effectiveDirection dir w ?h"
  let ?aw = "if isNaN wd then MaxContent else Definite wd"
  let ?ah = "if isNaN ht then MaxContent else Definite ht"
  note f5 = assms(5) and d5 = assms(6)
  have l5: "?h \<in> dom (styles (tree w5))"
    using assms(2) rootOf_preorder[of t] frame_dom[OF f5] by auto
  from compute_result[where eng = eng, OF l5 assms(7)] obtain w6 where
    w6: "computeLayoutWithMeasure eng ?h ?aw ?ah w5 = Done w6" "frame {} w5 w6"
        "nodes w6 = nodes w5" "dirtyFlags (tree w6) = ds" by blast
  have f6: "frame {?h} w w6" using frame_trans0[OF f5 w6(2)] .
  have u6: "unfolds w6 t" using unfolds_frame[OF f6 assms(1)] .
  have s6: "set (preorder t) \<subseteq> dom (styles (tree w6))" using assms(2) frame_dom[OF f6] by simp
  obtain w7 where
    w7: "(if ?d = DirectionRTL then restoreFlexDirection k ?h w6 else Done w6) = Done w7"
        "frame {} w6 w7" "\<forall>n. styleCache (nodes w7 n) = styleCache (nodes w6 n)"
        "if ?d = DirectionRTL
         then (\<forall>n\<in>set (preorder t).
                 map_option flex_direction (styles (tree w7) n) =
                   Some (fromYogaFlexDirection (flexDirection (styleCache (nodes w7 n)))) \<and>
                 dirtyFlags (tree w7) n)
         else dirtyFlags (tree w7) = ds"
  proof (cases "?d = DirectionRTL")
    case True
    from restore_walk[OF u6 s6 assms(3)] obtain w7 where
      "restoreFlexDirection k ?h w6 = Done w7" "frame {} w6 w7"
      "\<forall>n. styleCache (nodes w7 n) = styleCache (nodes w6 n)"
      "\<forall>n\<in>set (preorder t).
         map_option flex_direction (styles (tree w7) n) =
           Some (fromYogaFlexDirection (flexDirection (styleCache (nodes w7 n)))) \<and>
         dirtyFlags (tree w7) n" by blast
    with True that show ?thesis by simp
  next
    case False
    with that[of w6] frame_refl w6(4) show ?thesis by simp
  qed
  have f7: "frame {?h} w w7" using frame_trans0[OF f6 w7(2)] .
  have u7: "unfolds w7 t" using unfolds_frame[OF f7 assms(1)] .
  from marknew_walk[OF u7 assms(3)] obtain w8 where
    w8: "markNewLayoutRecursive k ?h w7 = Done w8" "frame {} w7 w8" "tree w8 = tree w7"
        "\<forall>n. styleCache (nodes w8 n) = styleCache (nodes w7 n)"
        "\<forall>n\<in>set (preorder t). \<not> isDirty_field (nodes w8 n) \<and> hasNewLayout_field (nodes w8 n)"
    by blast
  have f8: "frame {?h} w w8" using frame_trans0[OF f7 w8(2)] .
  have r: "calculateLayout eng k wd ht dir ?h w = Done w8"
    unfolding calculateLayout_split assms(4) by (simp add: w6(1) w7(1) w8(1))
  have c: "styleCache (nodes w8 n) = styleCache (nodes w5 n)" for n
    using w8(4) w7(3) w6(3) by simp
  have d8: "\<forall>n\<in>set (preorder t). lastDirection (styleCache (nodes w8 n)) = ?d"
    using d5 c by simp
  have e8: "if ?d = DirectionRTL
         then (\<forall>n\<in>set (preorder t).
                 map_option flex_direction (styles (tree w8) n) =
                   Some (fromYogaFlexDirection (flexDirection (styleCache (nodes w8 n)))) \<and>
                 dirtyFlags (tree w8) n)
         else dirtyFlags (tree w8) = ds"
    using w7(4) w8(3,4) by simp
  show ?thesis using r f8 w8(5) d8 e8 by simp
qed

lemma compute_fails:
  assumes "set (preorder t) \<subseteq> dom (styles (tree w))"
    and "beforeCompute k dir (rootOf t) w = Done w5" "frame {rootOf t} w w5"
    and "eng w5 (rootOf t) (if isNaN wd then MaxContent else Definite wd)
           (if isNaN ht then MaxContent else Definite ht) = ComputeError"
  shows "calculateLayout eng k wd ht dir (rootOf t) w = Threw ComputeFailed w5"
proof -
  have l5: "rootOf t \<in> dom (styles (tree w5))"
    using assms(1) rootOf_preorder[of t] frame_dom[OF assms(3)] by auto
  show ?thesis
    unfolding calculateLayout_split assms(2)
    by (simp add: compute_failure[where eng = eng, OF l5 assms(4)])
qed

lemma pass_returned:
  assumes "unfolds w t" "set (preorder t) \<subseteq> dom (styles (tree w))" "height t \<le> k"
    and "calculateLayout eng k wd ht dir (rootOf t) w = Done w'"
  shows "frame {rootOf t} w w' \<and>
     (\<forall>n\<in>set (preorder t).
        \<not> isDirty_field (nodes w' n) \<and> hasNewLayout_field (nodes w' n) \<and>
        lastDirection (styleCache (nodes w' n)) = effectiveDirection dir w (rootOf t)) \<and>
     (effectiveDirection dir w (rootOf t) = DirectionRTL \<longrightarrow>
       (\<forall>n\<in>set (preorder t).
          map_option flex_direction (styles (tree w') n) =
            Some (fromYogaFlexDirection (flexDirection (styleCache (nodes w' n)))) \<and>
          dirtyFlags (tree w') n))"
proof -
  let ?aw = "if isNaN wd then MaxContent else Definite wd"
  let ?ah = "if isNaN ht then MaxContent else Definite ht"
  from before_compute[OF assms(1,2,3), of dir] obtain w5 where
    w5: "beforeCompute k dir (rootOf t) w = Done w5" "frame {rootOf t} w w5"
        "\<forall>n\<in>set (preorder t).
           lastDirection (styleCache (nodes w5 n)) = effectiveDirection dir w (rootOf t)"
    by blast
  show ?thesis
  proof (cases "eng w5 (rootOf t) ?aw ?ah")
    case ComputeError
    from compute_fails[where eng = eng, OF assms(2) w5(1,2) ComputeError] assms(4)
    show ?thesis by simp
  next
    case (Computed ls ds)
    from after_compute[where eng = eng, OF assms(1,2,3) w5 Computed] obtain w'' where
      w'': "calculateLayout eng k wd ht dir (rootOf t) w = Done w''"
        "frame {rootOf t} w w''"
        "\<forall>n\<in>set (preorder t).
           \<not> isDirty_field (nodes w'' n) \<and> hasNewLayout_field (nodes w'' n) \<and>
           lastDirection (styleCache (nodes w'' n)) = effectiveDirection dir w (rootOf t)"
        "if effectiveDirection dir w (rootOf t) = DirectionRTL
         then (\<forall>n\<in>set (preorder t).
                 map_option flex_direction (styles (tree w'') n) =
                   Some (fromYogaFlexDirection (flexDirection (styleCache (nodes w'' n)))) \<and>
                 dirtyFlags (tree w'') n)
         else dirtyFlags (tree w'') = ds"
      by blast
    have e: "w'' = w'" using w''(1) assms(4) by simp
    show ?thesis
    proof (cases "effectiveDirection dir w (rootOf t) = DirectionRTL")
      case True
      with w''(2,3,4) show ?thesis unfolding e by simp
    next
      case False
      with w''(2,3) show ?thesis unfolding e by simp
    qed
  qed
qed

text \<open>
  What a pass leaves with the engine that always returns, and what a right-to-left pass
  leaves with the one that always fails.
\<close>

lemma pass_succeeding:
  assumes "unfolds w t" "set (preorder t) \<subseteq> dom (styles (tree w))" "height t \<le> k"
  shows "\<exists>w'. calculateLayout succeeding_engine k wd ht dir (rootOf t) w = Done w' \<and>
           frame {rootOf t} w w' \<and>
           (\<forall>n\<in>set (preorder t).
              \<not> isDirty_field (nodes w' n) \<and> hasNewLayout_field (nodes w' n) \<and>
              lastDirection (styleCache (nodes w' n)) = effectiveDirection dir w (rootOf t)) \<and>
           (if effectiveDirection dir w (rootOf t) = DirectionRTL
            then (\<forall>n\<in>set (preorder t).
                    map_option flex_direction (styles (tree w') n) =
                      Some (fromYogaFlexDirection (flexDirection (styleCache (nodes w' n)))) \<and>
                    dirtyFlags (tree w') n)
            else dirtyFlags (tree w') = (\<lambda>_. False))"
proof -
  from before_compute[OF assms(1,2,3), of dir] obtain w5 where
    w5: "beforeCompute k dir (rootOf t) w = Done w5" "frame {rootOf t} w w5"
        "\<forall>n\<in>set (preorder t).
           lastDirection (styleCache (nodes w5 n)) = effectiveDirection dir w (rootOf t)"
    by blast
  have e: "succeeding_engine w5 (rootOf t) (if isNaN wd then MaxContent else Definite wd)
             (if isNaN ht then MaxContent else Definite ht) = Computed (layouts (tree w5)) (\<lambda>_. False)"
    by (simp add: succeeding_engine_def)
  from after_compute[where eng = succeeding_engine, OF assms(1,2,3) w5 e] show ?thesis .
qed

lemma pass_failing:
  assumes "unfolds w t" "set (preorder t) \<subseteq> dom (styles (tree w))" "height t \<le> k"
    and "effectiveDirection dir w (rootOf t) = DirectionRTL"
  shows "\<exists>w'. calculateLayout failing_engine k wd ht dir (rootOf t) w = Threw ComputeFailed w' \<and>
           frame {rootOf t} w w' \<and>
           (\<forall>n\<in>set (preorder t).
              map_option flex_direction (styles (tree w') n) =
                Some (fromYogaFlexDirection (flippedFd (flexDirection (styleCache (nodes w' n))))))"
proof -
  from before_compute[OF assms(1,2,3), of dir] assms(4) obtain w5 where
    w5: "beforeCompute k dir (rootOf t) w = Done w5" "frame {rootOf t} w w5"
        "\<forall>n\<in>set (preorder t).
           map_option flex_direction (styles (tree w5) n) =
             Some (fromYogaFlexDirection (flippedFd (flexDirection (styleCache (nodes w5 n)))))"
    by auto
  have e: "failing_engine w5 (rootOf t) (if isNaN wd then MaxContent else Definite wd)
             (if isNaN ht then MaxContent else Definite ht) = ComputeError"
    by (simp add: failing_engine_def)
  from compute_fails[where eng = failing_engine, OF assms(2) w5(1,2) e] w5(2,3)
  show ?thesis by blast
qed

section \<open>Facts about the example worlds\<close>


lemma andThen_weak_cong: "r = r' \<Longrightarrow> andThen r f = andThen r' f"
  by simp

lemma forEach_weak_cong: "xs = xs' \<Longrightarrow> w = w' \<Longrightarrow> forEach f xs w = forEach f xs' w'"
  by simp

lemmas eval_ops =
  eval_defs two_nodes_def setMargin_def setPadding_def setBorder_def
  resolveMarginsToTaffy_def resolvePaddingsToTaffy_def resolveBordersToTaffy_def
  insertChild_def insertChildAtIndex_def resolveMargins_def resolvePaddings_def
  resolveBorders_def resolveEdges_def setPhysical_def setPhysicalBorder_def

lemma row_pair_eval:
  "\<exists>w. row_pair_scenario = Done w \<and> unfolds w pair_shape \<and>
       0 \<in> dom (styles (tree w)) \<and> 1 \<in> dom (styles (tree w)) \<and>
       flexDirection (styleCache (nodes w 0)) = FlexDirectionRow \<and>
       flexDirection (styleCache (nodes w 1)) = FlexDirectionRow"
  by (simp add: row_pair_scenario_def pair_shape_def eval_ops
        cong: andThen_weak_cong forEach_weak_cong)

lemma row_pair_facts:
  "row_pair_scenario = Done row_pair" "unfolds row_pair pair_shape"
  "0 \<in> dom (styles (tree row_pair))" "Suc 0 \<in> dom (styles (tree row_pair))"
  "flexDirection (styleCache (nodes row_pair 0)) = FlexDirectionRow"
  "flexDirection (styleCache (nodes row_pair (Suc 0))) = FlexDirectionRow"
proof -
  from row_pair_eval obtain w where
    w: "row_pair_scenario = Done w" "unfolds w pair_shape"
       "0 \<in> dom (styles (tree w))" "1 \<in> dom (styles (tree w))"
       "flexDirection (styleCache (nodes w 0)) = FlexDirectionRow"
       "flexDirection (styleCache (nodes w 1)) = FlexDirectionRow" by blast
  have e: "row_pair = w" unfolding row_pair_def w(1) by simp
  show "row_pair_scenario = Done row_pair" "unfolds row_pair pair_shape"
    "0 \<in> dom (styles (tree row_pair))" "Suc 0 \<in> dom (styles (tree row_pair))"
    "flexDirection (styleCache (nodes row_pair 0)) = FlexDirectionRow"
    "flexDirection (styleCache (nodes row_pair (Suc 0))) = FlexDirectionRow"
    using w unfolding e by simp_all
qed

lemma start_edges_eval:
  "\<exists>w. start_edges_scenario = Done w \<and> unfolds w pair_shape \<and>
       0 \<in> dom (styles (tree w)) \<and> 1 \<in> dom (styles (tree w)) \<and>
       styleCache (nodes w 1) = start_edges_cache \<and>
       map_option margin (styles (tree w) 1) =
         Some \<lparr> left = Length (Num 10), right = Auto, top_side = Auto, bottom_side = Auto \<rparr> \<and>
       map_option padding (styles (tree w) 1) =
         Some \<lparr> left = Length (Num 10), right = Length (Num 0), top_side = Length (Num 0),
                bottom_side = Length (Num 0) \<rparr> \<and>
       map_option border (styles (tree w) 1) =
         Some \<lparr> left = Length (Num 10), right = Length (Num 0), top_side = Length (Num 0),
                bottom_side = Length (Num 0) \<rparr>"
  by (simp add: start_edges_scenario_def pair_shape_def start_edges_cache_def eval_ops
        cong: andThen_weak_cong forEach_weak_cong)

lemma start_edges_facts:
  "start_edges_scenario = Done start_edges" "unfolds start_edges pair_shape"
  "0 \<in> dom (styles (tree start_edges))" "Suc 0 \<in> dom (styles (tree start_edges))"
  "styleCache (nodes start_edges (Suc 0)) = start_edges_cache"
  "map_option margin (styles (tree start_edges) (Suc 0)) =
     Some \<lparr> left = Length (Num 10), right = Auto, top_side = Auto, bottom_side = Auto \<rparr>"
  "map_option padding (styles (tree start_edges) (Suc 0)) =
     Some \<lparr> left = Length (Num 10), right = Length (Num 0), top_side = Length (Num 0),
            bottom_side = Length (Num 0) \<rparr>"
  "map_option border (styles (tree start_edges) (Suc 0)) =
     Some \<lparr> left = Length (Num 10), right = Length (Num 0), top_side = Length (Num 0),
            bottom_side = Length (Num 0) \<rparr>"
proof -
  from start_edges_eval obtain w where
    w: "start_edges_scenario = Done w" "unfolds w pair_shape"
       "0 \<in> dom (styles (tree w))" "1 \<in> dom (styles (tree w))"
       "styleCache (nodes w 1) = start_edges_cache"
       "map_option margin (styles (tree w) 1) =
          Some \<lparr> left = Length (Num 10), right = Auto, top_side = Auto, bottom_side = Auto \<rparr>"
       "map_option padding (styles (tree w) 1) =
          Some \<lparr> left = Length (Num 10), right = Length (Num 0), top_side = Length (Num 0),
                 bottom_side = Length (Num 0) \<rparr>"
       "map_option border (styles (tree w) 1) =
          Some \<lparr> left = Length (Num 10), right = Length (Num 0), top_side = Length (Num 0),
                 bottom_side = Length (Num 0) \<rparr>" by blast
  have e: "start_edges = w" unfolding start_edges_def w(1) by simp
  show "start_edges_scenario = Done start_edges" "unfolds start_edges pair_shape"
    "0 \<in> dom (styles (tree start_edges))" "Suc 0 \<in> dom (styles (tree start_edges))"
    "styleCache (nodes start_edges (Suc 0)) = start_edges_cache"
    "map_option margin (styles (tree start_edges) (Suc 0)) =
       Some \<lparr> left = Length (Num 10), right = Auto, top_side = Auto, bottom_side = Auto \<rparr>"
    "map_option padding (styles (tree start_edges) (Suc 0)) =
       Some \<lparr> left = Length (Num 10), right = Length (Num 0), top_side = Length (Num 0),
              bottom_side = Length (Num 0) \<rparr>"
    "map_option border (styles (tree start_edges) (Suc 0)) =
       Some \<lparr> left = Length (Num 10), right = Length (Num 0), top_side = Length (Num 0),
              bottom_side = Length (Num 0) \<rparr>"
    using w unfolding e by simp_all
qed

lemma pair_shape_facts:
  "rootOf pair_shape = 0" "set (preorder pair_shape) = {0, Suc 0}"
  "height pair_shape \<le> Suc (Suc 0)"
  by (auto simp: pair_shape_def)





section \<open>Right-to-left mirroring and its restoration\<close>


lemma cache_up_to_lastDirection:
  assumes "c'\<lparr> lastDirection := DirectionLTR \<rparr> = c\<lparr> lastDirection := DirectionLTR \<rparr>"
  shows "c' = c\<lparr> lastDirection := lastDirection c' \<rparr>"
proof -
  have "c' = (c'\<lparr> lastDirection := DirectionLTR \<rparr>)\<lparr> lastDirection := lastDirection c' \<rparr>"
    by simp
  also have "\<dots> = (c\<lparr> lastDirection := DirectionLTR \<rparr>)\<lparr> lastDirection := lastDirection c' \<rparr>"
    by (simp only: assms)
  finally show ?thesis by simp
qed

lemma frame_cache:
  "frame X w w' \<Longrightarrow>
   styleCache (nodes w' h) =
     (styleCache (nodes w h))\<lparr> lastDirection := lastDirection (styleCache (nodes w' h)) \<rparr>"
  by (rule cache_up_to_lastDirection) (simp add: frame_def)

lemma frame_boxes:
  assumes "frame X w w'" "h \<notin> X"
  shows "map_option margin (styles (tree w') h) = map_option margin (styles (tree w) h)"
    "map_option padding (styles (tree w') h) = map_option padding (styles (tree w) h)"
    "map_option border (styles (tree w') h) = map_option border (styles (tree w) h)"
  using assms unfolding frame_def by blast+

text \<open>
  C2, as the code has it. A right-to-left layout pass over a tree whose nodes are all in the
  engine tree, run with enough fuel, reaches the engine's computation call, in a world
  \<open>w5\<close> in which the caches hold the flex directions they held before the pass and every
  node of the tree is mirrored: its live flex direction is the flipped form of the cached
  one. If the computation call fails in that world, the pass throws the engine's error and
  leaves that world, mirrored; if the call returns, the pass returns, and then every cached
  flex direction is as before the pass and on every node of the tree the live flex
  direction is the cached, unflipped one.
\<close>

theorem rtl_mirroring_restored_when_computation_returns:
  assumes "unfolds w t" "set (preorder t) \<subseteq> dom (styles (tree w))" "height t \<le> k"
    and "effectiveDirection dir w (rootOf t) = DirectionRTL"
  shows "\<exists>w5. beforeCompute k dir (rootOf t) w = Done w5 \<and>
     (\<forall>n\<in>set (preorder t).
        flexDirection (styleCache (nodes w5 n)) = flexDirection (styleCache (nodes w n)) \<and>
        map_option flex_direction (styles (tree w5) n) =
          Some (fromYogaFlexDirection (flippedFd (flexDirection (styleCache (nodes w n)))))) \<and>
     (case eng w5 (rootOf t) (if isNaN wd then MaxContent else Definite wd)
             (if isNaN ht then MaxContent else Definite ht) of
        ComputeError \<Rightarrow>
          calculateLayout eng k wd ht dir (rootOf t) w = Threw ComputeFailed w5
      | Computed ls ds \<Rightarrow>
          (\<exists>w'. calculateLayout eng k wd ht dir (rootOf t) w = Done w' \<and>
             (\<forall>n\<in>set (preorder t).
                flexDirection (styleCache (nodes w' n)) = flexDirection (styleCache (nodes w n)) \<and>
                map_option flex_direction (styles (tree w') n) =
                  Some (fromYogaFlexDirection (flexDirection (styleCache (nodes w n)))))))"
proof -
  let ?aw = "if isNaN wd then MaxContent else Definite wd"
  let ?ah = "if isNaN ht then MaxContent else Definite ht"
  from before_compute[OF assms(1,2,3), of dir] assms(4) obtain w5 where
    w5: "beforeCompute k dir (rootOf t) w = Done w5" "frame {rootOf t} w w5"
        "\<forall>n\<in>set (preorder t).
           lastDirection (styleCache (nodes w5 n)) = effectiveDirection dir w (rootOf t)"
        "\<forall>n\<in>set (preorder t).
           map_option flex_direction (styles (tree w5) n) =
             Some (fromYogaFlexDirection (flippedFd (flexDirection (styleCache (nodes w5 n)))))"
    by auto
  have m: "\<forall>n\<in>set (preorder t).
        flexDirection (styleCache (nodes w5 n)) = flexDirection (styleCache (nodes w n)) \<and>
        map_option flex_direction (styles (tree w5) n) =
          Some (fromYogaFlexDirection (flippedFd (flexDirection (styleCache (nodes w n)))))"
    using w5(4) frame_flexDirection[OF w5(2)] by simp
  have c: "case eng w5 (rootOf t) ?aw ?ah of
        ComputeError \<Rightarrow>
          calculateLayout eng k wd ht dir (rootOf t) w = Threw ComputeFailed w5
      | Computed ls ds \<Rightarrow>
          (\<exists>w'. calculateLayout eng k wd ht dir (rootOf t) w = Done w' \<and>
             (\<forall>n\<in>set (preorder t).
                flexDirection (styleCache (nodes w' n)) = flexDirection (styleCache (nodes w n)) \<and>
                map_option flex_direction (styles (tree w') n) =
                  Some (fromYogaFlexDirection (flexDirection (styleCache (nodes w n))))))"
  proof (cases "eng w5 (rootOf t) ?aw ?ah")
    case ComputeError
    from compute_fails[where eng = eng, OF assms(2) w5(1,2) ComputeError]
    show ?thesis unfolding ComputeError by simp
  next
    case (Computed ls ds)
    from after_compute[where eng = eng, OF assms(1,2,3) w5(1,2,3) Computed] assms(4)
    obtain w' where
      w': "calculateLayout eng k wd ht dir (rootOf t) w = Done w'" "frame {rootOf t} w w'"
        "\<forall>n\<in>set (preorder t).
           map_option flex_direction (styles (tree w') n) =
             Some (fromYogaFlexDirection (flexDirection (styleCache (nodes w' n))))"
      by auto
    have "\<forall>n\<in>set (preorder t).
            flexDirection (styleCache (nodes w' n)) = flexDirection (styleCache (nodes w n)) \<and>
            map_option flex_direction (styles (tree w') n) =
              Some (fromYogaFlexDirection (flexDirection (styleCache (nodes w n))))"
      using w'(3) frame_flexDirection[OF w'(2)] by simp
    with w'(1) show ?thesis unfolding Computed by auto
  qed
  from w5(1) m c show ?thesis by blast
qed

theorem rtl_mirroring_restored_witness:
  "unfolds row_pair pair_shape \<and>
   set (preorder pair_shape) \<subseteq> dom (styles (tree row_pair)) \<and>
   height pair_shape \<le> Suc (Suc 0) \<and>
   effectiveDirection (Some DirectionRTL) row_pair (rootOf pair_shape) = DirectionRTL \<and>
   returned (calculateLayout succeeding_engine (Suc (Suc 0)) NaN NaN (Some DirectionRTL) 0 row_pair) \<and>
   map_option flex_direction
     (live_style (calculateLayout succeeding_engine (Suc (Suc 0)) NaN NaN (Some DirectionRTL) 0 row_pair) 0)
     = Some TaffyRow \<and>
   map_option flex_direction
     (live_style (calculateLayout succeeding_engine (Suc (Suc 0)) NaN NaN (Some DirectionRTL) 0 row_pair) 1)
     = Some TaffyRow \<and>
   map_option flex_direction (live_style (beforeCompute (Suc (Suc 0)) (Some DirectionRTL) 0 row_pair) 0)
     = Some TaffyRowReverse \<and>
   map_option flex_direction (live_style (beforeCompute (Suc (Suc 0)) (Some DirectionRTL) 0 row_pair) 1)
     = Some TaffyRowReverse"
proof -
  have h: "unfolds row_pair pair_shape"
    "set (preorder pair_shape) \<subseteq> dom (styles (tree row_pair))"
    "height pair_shape \<le> Suc (Suc 0)"
    "effectiveDirection (Some DirectionRTL) row_pair (rootOf pair_shape) = DirectionRTL"
    using row_pair_facts pair_shape_facts
    by (simp_all add: effectiveDirection_def)
  from rtl_mirroring_restored_when_computation_returns
         [where eng = succeeding_engine and wd = NaN and ht = NaN, OF h]
  obtain w5 w' where
    w5: "beforeCompute (Suc (Suc 0)) (Some DirectionRTL) 0 row_pair = Done w5"
       "\<forall>n\<in>{0, Suc 0}. map_option flex_direction (styles (tree w5) n) =
          Some (fromYogaFlexDirection (flippedFd (flexDirection (styleCache (nodes row_pair n)))))"
    and w': "calculateLayout succeeding_engine (Suc (Suc 0)) NaN NaN (Some DirectionRTL) 0 row_pair
           = Done w'"
       "\<forall>n\<in>{0, Suc 0}. map_option flex_direction (styles (tree w') n) =
          Some (fromYogaFlexDirection (flexDirection (styleCache (nodes row_pair n))))"
    by (auto simp: pair_shape_facts succeeding_engine_def)
  show ?thesis using h w5(2) w'(2)
    by (simp add: w5(1) w'(1) live_style_Done row_pair_facts flippedFd_def)
qed

theorem failed_rtl_pass_stays_mirrored:
  "thrown (calculateLayout failing_engine (Suc (Suc 0)) NaN NaN (Some DirectionRTL) 0 row_pair)
     = Some ComputeFailed \<and>
   map_option flex_direction
     (live_style (calculateLayout failing_engine (Suc (Suc 0)) NaN NaN (Some DirectionRTL) 0 row_pair) 0)
     = Some TaffyRowReverse \<and>
   map_option flex_direction
     (live_style (calculateLayout failing_engine (Suc (Suc 0)) NaN NaN (Some DirectionRTL) 0 row_pair) 1)
     = Some TaffyRowReverse \<and>
   map_option flexDirection
     (cache_of (calculateLayout failing_engine (Suc (Suc 0)) NaN NaN (Some DirectionRTL) 0 row_pair) 0)
     = Some FlexDirectionRow \<and>
   map_option flexDirection
     (cache_of (calculateLayout failing_engine (Suc (Suc 0)) NaN NaN (Some DirectionRTL) 0 row_pair) 1)
     = Some FlexDirectionRow"
proof -
  have s: "set (preorder pair_shape) \<subseteq> dom (styles (tree row_pair))"
    using row_pair_facts pair_shape_facts by simp
  have d: "effectiveDirection (Some DirectionRTL) row_pair (rootOf pair_shape) = DirectionRTL"
    by (simp add: effectiveDirection_def)
  from pass_failing[where wd = NaN and ht = NaN, OF row_pair_facts(2) s pair_shape_facts(3) d]
  obtain w' where
    w': "calculateLayout failing_engine (Suc (Suc 0)) NaN NaN (Some DirectionRTL) 0 row_pair
           = Threw ComputeFailed w'"
       "frame {0} row_pair w'"
       "\<forall>n\<in>{0, Suc 0}. map_option flex_direction (styles (tree w') n) =
          Some (fromYogaFlexDirection (flippedFd (flexDirection (styleCache (nodes w' n)))))"
    by (auto simp: pair_shape_facts)
  show ?thesis
    using w'(3) frame_flexDirection[OF w'(2)]
    by (simp add: w'(1) live_style_Threw cache_of_Threw row_pair_facts flippedFd_def)
qed

section \<open>Dirty state and the new-layout flag after a pass\<close>

text \<open>
  What holds after every pass that returns: each node of the tree has its own dirty flag
  reset and its new-layout flag set; and after a right-to-left pass \<open>isDirty()\<close>, which
  reads the engine's flag, is true on each of them, because \<open>restoreFlexDirection\<close>
  stores a style on every node after the computation.
\<close>

lemma pass_dirty_state:
  assumes "unfolds w t" "set (preorder t) \<subseteq> dom (styles (tree w))" "height t \<le> k"
    and "calculateLayout eng k wd ht dir (rootOf t) w = Done w'"
    and "n \<in> set (preorder t)"
  shows "\<not> isDirty_field (nodes w' n)" "hasNewLayout w' n"
    "effectiveDirection dir w (rootOf t) = DirectionRTL \<Longrightarrow> isDirty w' n = Inr True"
proof -
  note r = pass_returned[OF assms(1,2,3,4)]
  from r assms(5) show "\<not> isDirty_field (nodes w' n)" "hasNewLayout w' n"
    by (simp_all add: hasNewLayout_def)
  have l: "n \<in> dom (styles (tree w'))"
    using r assms(2,5) frame_dom[of "{rootOf t}" w w'] by auto
  show "isDirty w' n = Inr True" if "effectiveDirection dir w (rootOf t) = DirectionRTL"
    using r that assms(5) by (simp add: isDirty_live[OF l])
qed

text \<open>
  C6, at the failing input: parent and child, both \<open>Row\<close>, and a right-to-left pass over
  the parent with an engine whose computation returns and leaves every node clean. The
  pass returns, both nodes have their own dirty flag reset and \<open>hasNewLayout()\<close> true,
  and \<open>isDirty()\<close> is true on both. After a left-to-right pass over the same tree
  \<open>isDirty()\<close> is false on both.
\<close>

theorem isDirty_true_after_rtl_pass:
  "returned (calculateLayout succeeding_engine (Suc (Suc 0)) NaN NaN (Some DirectionRTL) 0 row_pair) \<and>
   isDirty_of (calculateLayout succeeding_engine (Suc (Suc 0)) NaN NaN (Some DirectionRTL) 0 row_pair) 0
     = Some (Inr True) \<and>
   isDirty_of (calculateLayout succeeding_engine (Suc (Suc 0)) NaN NaN (Some DirectionRTL) 0 row_pair) 1
     = Some (Inr True) \<and>
   map_option isDirty_field
     (node_of (calculateLayout succeeding_engine (Suc (Suc 0)) NaN NaN (Some DirectionRTL) 0 row_pair) 0)
     = Some False \<and>
   map_option isDirty_field
     (node_of (calculateLayout succeeding_engine (Suc (Suc 0)) NaN NaN (Some DirectionRTL) 0 row_pair) 1)
     = Some False \<and>
   map_option hasNewLayout_field
     (node_of (calculateLayout succeeding_engine (Suc (Suc 0)) NaN NaN (Some DirectionRTL) 0 row_pair) 0)
     = Some True \<and>
   map_option hasNewLayout_field
     (node_of (calculateLayout succeeding_engine (Suc (Suc 0)) NaN NaN (Some DirectionRTL) 0 row_pair) 1)
     = Some True \<and>
   returned (calculateLayout succeeding_engine (Suc (Suc 0)) NaN NaN (Some DirectionLTR) 0 row_pair) \<and>
   isDirty_of (calculateLayout succeeding_engine (Suc (Suc 0)) NaN NaN (Some DirectionLTR) 0 row_pair) 0
     = Some (Inr False) \<and>
   isDirty_of (calculateLayout succeeding_engine (Suc (Suc 0)) NaN NaN (Some DirectionLTR) 0 row_pair) 1
     = Some (Inr False)"
proof -
  have s: "set (preorder pair_shape) \<subseteq> dom (styles (tree row_pair))"
    using row_pair_facts pair_shape_facts by simp
  have d: "effectiveDirection (Some DirectionRTL) row_pair (rootOf pair_shape) = DirectionRTL"
    "effectiveDirection (Some DirectionLTR) row_pair (rootOf pair_shape) \<noteq> DirectionRTL"
    by (simp_all add: effectiveDirection_def)
  from pass_succeeding[where wd = NaN and ht = NaN and dir = "Some DirectionRTL",
         OF row_pair_facts(2) s pair_shape_facts(3)] d(1)
  obtain w' where
    w': "calculateLayout succeeding_engine (Suc (Suc 0)) NaN NaN (Some DirectionRTL) 0 row_pair
           = Done w'"
       "frame {0} row_pair w'"
       "\<forall>n\<in>{0, Suc 0}. \<not> isDirty_field (nodes w' n) \<and> hasNewLayout_field (nodes w' n)"
       "\<forall>n\<in>{0, Suc 0}. dirtyFlags (tree w') n"
    by (auto simp: pair_shape_facts)
  from pass_succeeding[where wd = NaN and ht = NaN and dir = "Some DirectionLTR",
         OF row_pair_facts(2) s pair_shape_facts(3)] d(2)
  obtain v' where
    v': "calculateLayout succeeding_engine (Suc (Suc 0)) NaN NaN (Some DirectionLTR) 0 row_pair
           = Done v'"
       "frame {0} row_pair v'"
       "dirtyFlags (tree v') = (\<lambda>_. False)"
    by (auto simp: pair_shape_facts)
  have l: "0 \<in> dom (styles (tree w'))" "Suc 0 \<in> dom (styles (tree w'))"
    "0 \<in> dom (styles (tree v'))" "Suc 0 \<in> dom (styles (tree v'))"
    using frame_dom[OF w'(2)] frame_dom[OF v'(2)] row_pair_facts by simp_all
  show ?thesis using w'(3,4) v'(3)
    by (simp add: w'(1) v'(1) isDirty_of_Done node_of_Done isDirty_live l)
qed

section \<open>Edges of descendants in a layout pass\<close>

text \<open>
  What holds for every pass that returns: the live margin, padding and border of every
  node other than the pass root are what they were before the pass.
\<close>

lemma pass_leaves_descendant_edges:
  assumes "unfolds w t" "set (preorder t) \<subseteq> dom (styles (tree w))" "height t \<le> k"
    and "calculateLayout eng k wd ht dir (rootOf t) w = Done w'"
    and "n \<noteq> rootOf t"
  shows "map_option margin (styles (tree w') n) = map_option margin (styles (tree w) n)"
     "map_option padding (styles (tree w') n) = map_option padding (styles (tree w) n)"
     "map_option border (styles (tree w') n) = map_option border (styles (tree w) n)"
proof -
  have f: "frame {rootOf t} w w'" using pass_returned[OF assms(1,2,3,4)] by blast
  have "n \<notin> {rootOf t}" using assms(5) by simp
  from frame_boxes[OF f this]
  show "map_option margin (styles (tree w') n) = map_option margin (styles (tree w) n)"
     "map_option padding (styles (tree w') n) = map_option padding (styles (tree w) n)"
     "map_option border (styles (tree w') n) = map_option border (styles (tree w) n)" .
qed

text \<open>
  C3, at the failing input: parent and child, the child with \<open>Start = 10\<close> for margin,
  padding and border, set while its last resolved direction was left-to-right; then a
  right-to-left pass over the parent. The pass returns and leaves the child's cache with
  last resolved direction right-to-left, for which the Style Resolver yields right 10;
  the child's live margin, padding and border still have the 10 on the left.
\<close>

theorem descendant_edges_not_re_resolved:
  "returned (calculateLayout succeeding_engine (Suc (Suc 0)) NaN NaN (Some DirectionRTL) 0 start_edges) \<and>
   cache_of (calculateLayout succeeding_engine (Suc (Suc 0)) NaN NaN (Some DirectionRTL) 0 start_edges) 1
     = Some (start_edges_cache\<lparr> lastDirection := DirectionRTL \<rparr>) \<and>
   resolveMargins (start_edges_cache\<lparr> lastDirection := DirectionRTL \<rparr>) =
     \<lparr> left = Auto, right = Length (Num 10), top_side = Auto, bottom_side = Auto \<rparr> \<and>
   map_option margin
     (live_style (calculateLayout succeeding_engine (Suc (Suc 0)) NaN NaN (Some DirectionRTL) 0 start_edges) 1)
     = Some \<lparr> left = Length (Num 10), right = Auto, top_side = Auto, bottom_side = Auto \<rparr> \<and>
   resolvePaddings (start_edges_cache\<lparr> lastDirection := DirectionRTL \<rparr>) =
     \<lparr> left = Length (Num 0), right = Length (Num 10), top_side = Length (Num 0),
       bottom_side = Length (Num 0) \<rparr> \<and>
   map_option padding
     (live_style (calculateLayout succeeding_engine (Suc (Suc 0)) NaN NaN (Some DirectionRTL) 0 start_edges) 1)
     = Some \<lparr> left = Length (Num 10), right = Length (Num 0), top_side = Length (Num 0),
              bottom_side = Length (Num 0) \<rparr> \<and>
   resolveBorders (start_edges_cache\<lparr> lastDirection := DirectionRTL \<rparr>) =
     \<lparr> left = Length (Num 0), right = Length (Num 10), top_side = Length (Num 0),
       bottom_side = Length (Num 0) \<rparr> \<and>
   map_option border
     (live_style (calculateLayout succeeding_engine (Suc (Suc 0)) NaN NaN (Some DirectionRTL) 0 start_edges) 1)
     = Some \<lparr> left = Length (Num 10), right = Length (Num 0), top_side = Length (Num 0),
              bottom_side = Length (Num 0) \<rparr>"
proof -
  have s: "set (preorder pair_shape) \<subseteq> dom (styles (tree start_edges))"
    using start_edges_facts pair_shape_facts by simp
  have d: "effectiveDirection (Some DirectionRTL) start_edges (rootOf pair_shape) = DirectionRTL"
    by (simp add: effectiveDirection_def)
  from pass_succeeding[where wd = NaN and ht = NaN and dir = "Some DirectionRTL",
         OF start_edges_facts(2) s pair_shape_facts(3)] d
  obtain w' where
    w': "calculateLayout succeeding_engine (Suc (Suc 0)) NaN NaN (Some DirectionRTL) 0 start_edges
           = Done w'"
       "frame {0} start_edges w'"
       "\<forall>n\<in>{0, Suc 0}. lastDirection (styleCache (nodes w' n)) = DirectionRTL"
    by (auto simp: pair_shape_facts)
  have c: "styleCache (nodes w' (Suc 0)) = start_edges_cache\<lparr> lastDirection := DirectionRTL \<rparr>"
    using frame_cache[OF w'(2), of "Suc 0"] w'(3) start_edges_facts(5) by simp
  have b: "Suc 0 \<notin> {0::nat}" by simp
  have r: "resolveMargins (start_edges_cache\<lparr> lastDirection := DirectionRTL \<rparr>) =
     \<lparr> left = Auto, right = Length (Num 10), top_side = Auto, bottom_side = Auto \<rparr>"
    "resolvePaddings (start_edges_cache\<lparr> lastDirection := DirectionRTL \<rparr>) =
     \<lparr> left = Length (Num 0), right = Length (Num 10), top_side = Length (Num 0),
       bottom_side = Length (Num 0) \<rparr>"
    "resolveBorders (start_edges_cache\<lparr> lastDirection := DirectionRTL \<rparr>) =
     \<lparr> left = Length (Num 0), right = Length (Num 10), top_side = Length (Num 0),
       bottom_side = Length (Num 0) \<rparr>"
    by (simp_all add: start_edges_cache_def cache_defs)
  show ?thesis
    using frame_boxes[OF w'(2) b] start_edges_facts(6,7,8)
    by (simp add: w'(1) live_style_Done cache_of_Done c r)
qed

section \<open>Freeing a tree\<close>


lemma forEach_append: "forEach f (xs @ ys) w = andThen (forEach f xs w) (forEach f ys)"
proof (induction xs arbitrary: w)
  case Nil
  then show ?case by simp
next
  case (Cons x xs)
  show ?case by (cases "f x w") (simp_all add: Cons.IH)
qed

lemma forEach_single: "forEach f [x] = f x"
proof
  fix w show "forEach f [x] w = f x w" by (cases "f x w") simp_all
qed

lemma andThen_cong_Done:
  "(\<And>w1. r = Done w1 \<Longrightarrow> f w1 = g w1) \<Longrightarrow> andThen r f = andThen r g"
  by (cases r) simp_all

lemma free_nodes: "free h w = Done w' \<Longrightarrow> nodes w' = nodes w"
  by (auto simp: free_def split: sum.splits)

lemma forEach_free_nodes: "forEach free xs w = Done w' \<Longrightarrow> nodes w' = nodes w"
proof (induction xs arbitrary: w)
  case Nil
  then show ?case by simp
next
  case (Cons x xs)
  then show ?case by (cases "free x w") (auto dest: free_nodes)
qed

lemma unfolds_nodes: "nodes w' = nodes w \<Longrightarrow> unfolds w' t = unfolds w t"
  by (induction t) (simp add: list_all_iff)

lemma freeRecursive_postorder:
  "unfolds w t \<Longrightarrow> height t \<le> k \<Longrightarrow> freeRecursive k (rootOf t) w = forEach free (postorder t) w"
proof (induction t arbitrary: k w)
  case (Shape h ts)
  obtain k' where k: "k = Suc k'" using Shape.prems(2) by (cases k) auto
  have cl: "childList (nodes w h) = map rootOf ts" using Shape.prems(1) by simp
  have inner: "forEach (freeRecursive k') (map rootOf us) a = forEach free (concat (map postorder us)) a"
    if "set us \<subseteq> set ts" "nodes a = nodes w" for us a
    using that
  proof (induction us arbitrary: a)
    case Nil
    then show ?case by simp
  next
    case (Cons u us)
    have u: "u \<in> set ts" using Cons.prems(1) by simp
    have ua: "unfolds a u"
      using Shape.prems(1) u unfolds_nodes[OF Cons.prems(2)] by (simp add: list_all_iff)
    have hu: "height u \<le> k'" using height_child[OF u, of h] Shape.prems(2) k by simp
    have first: "freeRecursive k' (rootOf u) a = forEach free (postorder u) a"
      using Shape.IH[OF u ua hu] .
    have rest: "forEach (freeRecursive k') (map rootOf us) w1 =
                forEach free (concat (map postorder us)) w1"
      if "forEach free (postorder u) a = Done w1" for w1
    proof -
      have "nodes w1 = nodes w" using forEach_free_nodes[OF that] Cons.prems(2) by simp
      then show ?thesis using Cons.IH Cons.prems(1) by simp
    qed
    show ?case
      by (simp add: first forEach_append) (rule andThen_cong_Done, rule rest)
  qed
  have "freeRecursive k h w =
        andThen (forEach free (concat (map postorder ts)) w) (free h)"
    using inner[of ts w] by (simp add: k cl)
  also have "\<dots> = forEach free (postorder (Shape h ts)) w"
    by (simp add: forEach_append forEach_single)
  finally show ?case by simp
qed

lemma free_live:
  assumes "h \<in> dom (styles (tree w))"
  shows "\<exists>w'. free h w = Done w' \<and> instanceCache w' = (instanceCache w)(h := None) \<and>
     dom (styles (tree w')) = dom (styles (tree w)) - {h}"
  using assms by (auto simp: free_def tree_remove_def)

lemma forEach_free_distinct:
  "distinct xs \<Longrightarrow> set xs \<subseteq> dom (styles (tree w)) \<Longrightarrow>
   \<exists>w'. forEach free xs w = Done w' \<and>
        (\<forall>n. instanceCache w' n = (if n \<in> set xs then None else instanceCache w n)) \<and>
        dom (styles (tree w')) = dom (styles (tree w)) - set xs"
proof (induction xs arbitrary: w)
  case Nil
  then show ?case by simp
next
  case (Cons x xs)
  from free_live[of x w] Cons.prems(2) obtain w1 where
    w1: "free x w = Done w1" "instanceCache w1 = (instanceCache w)(x := None)"
        "dom (styles (tree w1)) = dom (styles (tree w)) - {x}" by auto
  have "set xs \<subseteq> dom (styles (tree w1))" using Cons.prems w1(3) by auto
  from Cons.IH[OF _ this] Cons.prems(1) obtain w2 where
    w2: "forEach free xs w1 = Done w2"
        "\<forall>n. instanceCache w2 n = (if n \<in> set xs then None else instanceCache w1 n)"
        "dom (styles (tree w2)) = dom (styles (tree w1)) - set xs" by auto
  show ?case using w1 w2 by auto
qed

lemma free_dead: "h \<notin> dom (styles (tree w)) \<Longrightarrow> free h w = Threw InvalidNode w"
  by (simp add: free_def tree_remove_def)

text \<open>
  C7. For a tree whose child lists unfold into \<open>t\<close>, \<open>freeRecursive\<close> on the root,
  given enough fuel, is the sequence of \<open>free\<close> calls in post-order: the nodes of every
  subtree are freed before the subtree's root, and the root of the tree last. This is an
  equation between outcomes, so it also says where the call stops when a \<open>free\<close>
  throws. When every node of the tree occurs once and is in the engine tree,
  \<open>freeRecursive\<close> returns; afterwards the registry resolves none of the tree's
  handles, the engine tree holds none of them, and the registry entries of all other
  handles are as before.
\<close>

theorem freeRecursive_frees_whole_tree:
  assumes "unfolds w t" "height t \<le> k"
  shows "freeRecursive k (rootOf t) w = forEach free (postorder t) w \<and>
     (distinct (postorder t) \<and> set (postorder t) \<subseteq> dom (styles (tree w)) \<longrightarrow>
        (\<exists>w'. freeRecursive k (rootOf t) w = Done w' \<and>
           (\<forall>n\<in>set (postorder t). getNodeById w' n = None \<and> n \<notin> dom (styles (tree w'))) \<and>
           (\<forall>n. n \<in> set (postorder t) \<or> getNodeById w' n = getNodeById w n)))"
proof (intro conjI impI)
  show e: "freeRecursive k (rootOf t) w = forEach free (postorder t) w"
    using freeRecursive_postorder[OF assms] .
  assume a: "distinct (postorder t) \<and> set (postorder t) \<subseteq> dom (styles (tree w))"
  from forEach_free_distinct[of "postorder t" w] a obtain w' where
    w': "forEach free (postorder t) w = Done w'"
        "\<forall>n. instanceCache w' n = (if n \<in> set (postorder t) then None else instanceCache w n)"
        "dom (styles (tree w')) = dom (styles (tree w)) - set (postorder t)" by blast
  show "\<exists>w'. freeRecursive k (rootOf t) w = Done w' \<and>
           (\<forall>n\<in>set (postorder t). getNodeById w' n = None \<and> n \<notin> dom (styles (tree w'))) \<and>
           (\<forall>n. n \<in> set (postorder t) \<or> getNodeById w' n = getNodeById w n)"
    using e w' by (auto simp: getNodeById_def)
qed

lemma three_levels_eval:
  "\<exists>w. three_levels_scenario = Done w \<and> unfolds w chain_shape \<and>
       0 \<in> dom (styles (tree w)) \<and> Suc 0 \<in> dom (styles (tree w)) \<and> 2 \<in> dom (styles (tree w)) \<and>
       getNodeById w 0 = Some 0 \<and> getNodeById w (Suc 0) = Some (Suc 0) \<and> getNodeById w 2 = Some 2"
  by (simp add: three_levels_scenario_def chain_shape_def eval_ops getNodeById_def
        cong: andThen_weak_cong forEach_weak_cong)

lemma three_levels_facts:
  "three_levels_scenario = Done three_levels" "unfolds three_levels chain_shape"
  "0 \<in> dom (styles (tree three_levels))" "Suc 0 \<in> dom (styles (tree three_levels))"
  "2 \<in> dom (styles (tree three_levels))"
  "getNodeById three_levels 0 = Some 0" "getNodeById three_levels (Suc 0) = Some (Suc 0)"
  "getNodeById three_levels 2 = Some 2"
proof -
  from three_levels_eval obtain w where
    w: "three_levels_scenario = Done w" "unfolds w chain_shape"
       "0 \<in> dom (styles (tree w))" "Suc 0 \<in> dom (styles (tree w))" "2 \<in> dom (styles (tree w))"
       "getNodeById w 0 = Some 0" "getNodeById w (Suc 0) = Some (Suc 0)" "getNodeById w 2 = Some 2"
    by blast
  have e: "three_levels = w" unfolding three_levels_def w(1) by simp
  show "three_levels_scenario = Done three_levels" "unfolds three_levels chain_shape"
    "0 \<in> dom (styles (tree three_levels))" "Suc 0 \<in> dom (styles (tree three_levels))"
    "2 \<in> dom (styles (tree three_levels))"
    "getNodeById three_levels 0 = Some 0" "getNodeById three_levels (Suc 0) = Some (Suc 0)"
    "getNodeById three_levels 2 = Some 2"
    using w unfolding e by simp_all
qed

lemma chain_shape_facts:
  "rootOf chain_shape = 0" "postorder chain_shape = [2, Suc 0, 0]"
  "height chain_shape \<le> Suc (Suc (Suc 0))"
  by (simp_all add: chain_shape_def)

lemma three_levels_b_freed_facts:
  "unfolds three_levels_b_freed chain_shape"
  "2 \<in> dom (styles (tree three_levels_b_freed))"
  "Suc 0 \<notin> dom (styles (tree three_levels_b_freed))"
  "getNodeById three_levels_b_freed 0 = Some 0"
  "getNodeById three_levels_b_freed 2 = Some 2"
proof -
  from free_live[OF three_levels_facts(4)] obtain w' where
    w': "free (Suc 0) three_levels = Done w'"
        "instanceCache w' = (instanceCache three_levels)(Suc 0 := None)"
        "dom (styles (tree w')) = dom (styles (tree three_levels)) - {Suc 0}" by blast
  have e: "three_levels_b_freed = w'" by (simp add: three_levels_b_freed_def w'(1))
  have n: "nodes w' = nodes three_levels" using free_nodes[OF w'(1)] .
  show "unfolds three_levels_b_freed chain_shape"
    unfolding e using unfolds_nodes[OF n] three_levels_facts(2) by simp
  show "2 \<in> dom (styles (tree three_levels_b_freed))"
    "Suc 0 \<notin> dom (styles (tree three_levels_b_freed))"
    unfolding e w'(3) using three_levels_facts(5) by simp_all
  show "getNodeById three_levels_b_freed 0 = Some 0" "getNodeById three_levels_b_freed 2 = Some 2"
    unfolding e using three_levels_facts(6,8) by (simp_all add: getNodeById_def w'(2))
qed

text \<open>
  The order of the \<open>free\<close> calls can be observed when a node of the tree has been freed
  before: in the three-level tree \<open>0\<close>, \<open>1\<close>, \<open>2\<close> with the middle node freed, freeing
  root first removes the root from the registry and stops at the middle node, with the
  leaf still registered. \<open>freeRecursive\<close> on that tree, in the example below, removes
  the leaf and leaves the root registered.
\<close>

lemma root_first_order_differs:
  "thrown (forEach free [0, Suc 0, 2] three_levels_b_freed) = Some InvalidNode"
  "registry_of (forEach free [0, Suc 0, 2] three_levels_b_freed) 0 = Some None"
  "registry_of (forEach free [0, Suc 0, 2] three_levels_b_freed) 2 = Some (Some 2)"
proof -
  have l0: "0 \<in> dom (styles (tree three_levels_b_freed))"
  proof -
    from free_live[OF three_levels_facts(4)] obtain w' where
      w': "free (Suc 0) three_levels = Done w'"
          "dom (styles (tree w')) = dom (styles (tree three_levels)) - {Suc 0}" by blast
    have "three_levels_b_freed = w'" by (simp add: three_levels_b_freed_def w'(1))
    then show ?thesis using w'(2) three_levels_facts(3) by simp
  qed
  from free_live[OF l0] obtain w0 where
    w0: "free 0 three_levels_b_freed = Done w0"
        "instanceCache w0 = (instanceCache three_levels_b_freed)(0 := None)"
        "dom (styles (tree w0)) = dom (styles (tree three_levels_b_freed)) - {0}" by blast
  have dead: "Suc 0 \<notin> dom (styles (tree w0))"
    using three_levels_b_freed_facts(3) w0(3) by simp
  have r: "forEach free [0, Suc 0, 2] three_levels_b_freed = Threw InvalidNode w0"
    by (simp add: w0(1) free_dead[OF dead])
  show "thrown (forEach free [0, Suc 0, 2] three_levels_b_freed) = Some InvalidNode"
    "registry_of (forEach free [0, Suc 0, 2] three_levels_b_freed) 0 = Some None"
    "registry_of (forEach free [0, Suc 0, 2] three_levels_b_freed) 2 = Some (Some 2)"
    unfolding r using three_levels_b_freed_facts(5)
    by (simp_all add: registry_of_Threw getNodeById_def w0(2))
qed

text \<open>
  The theorem at the three-level tree built with \<open>insertChild\<close>: all three handles are
  removed from the registry. With the middle node freed before, \<open>freeRecursive\<close> on the
  root throws at the middle node after it has removed the leaf, and the root is still
  registered: the descendants come first.
\<close>

theorem freeRecursive_frees_whole_tree_witness:
  "unfolds three_levels chain_shape \<and>
   height chain_shape \<le> Suc (Suc (Suc 0)) \<and>
   distinct (postorder chain_shape) \<and>
   set (postorder chain_shape) \<subseteq> dom (styles (tree three_levels)) \<and>
   getNodeById three_levels 0 = Some 0 \<and>
   getNodeById three_levels (Suc 0) = Some (Suc 0) \<and>
   getNodeById three_levels 2 = Some 2 \<and>
   returned (freeRecursive (Suc (Suc (Suc 0))) 0 three_levels) \<and>
   registry_of (freeRecursive (Suc (Suc (Suc 0))) 0 three_levels) 0 = Some None \<and>
   registry_of (freeRecursive (Suc (Suc (Suc 0))) 0 three_levels) (Suc 0) = Some None \<and>
   registry_of (freeRecursive (Suc (Suc (Suc 0))) 0 three_levels) 2 = Some None \<and>
   unfolds three_levels_b_freed chain_shape \<and>
   getNodeById three_levels_b_freed 0 = Some 0 \<and>
   getNodeById three_levels_b_freed 2 = Some 2 \<and>
   thrown (freeRecursive (Suc (Suc (Suc 0))) 0 three_levels_b_freed) = Some InvalidNode \<and>
   registry_of (freeRecursive (Suc (Suc (Suc 0))) 0 three_levels_b_freed) 2 = Some None \<and>
   registry_of (freeRecursive (Suc (Suc (Suc 0))) 0 three_levels_b_freed) 0 = Some (Some 0)"
proof -
  have h: "unfolds three_levels chain_shape" "height chain_shape \<le> Suc (Suc (Suc 0))"
    and g: "distinct (postorder chain_shape) \<and>
            set (postorder chain_shape) \<subseteq> dom (styles (tree three_levels))"
    using three_levels_facts chain_shape_facts by simp_all
  from freeRecursive_frees_whole_tree[OF h] g
  have "\<exists>w'. freeRecursive (Suc (Suc (Suc 0))) (rootOf chain_shape) three_levels = Done w' \<and>
          (\<forall>n\<in>set (postorder chain_shape).
              getNodeById w' n = None \<and> n \<notin> dom (styles (tree w'))) \<and>
          (\<forall>n. n \<in> set (postorder chain_shape) \<or> getNodeById w' n = getNodeById three_levels n)"
    by blast
  then obtain w' where
    a: "freeRecursive (Suc (Suc (Suc 0))) (rootOf chain_shape) three_levels = Done w'"
    and b: "\<forall>n\<in>set (postorder chain_shape). getNodeById w' n = None" by blast
  have w': "freeRecursive (Suc (Suc (Suc 0))) 0 three_levels = Done w'"
    "getNodeById w' 0 = None" "getNodeById w' (Suc 0) = None" "getNodeById w' 2 = None"
    using a b unfolding chain_shape_facts by simp_all
  have q: "returned (freeRecursive (Suc (Suc (Suc 0))) 0 three_levels)"
    "registry_of (freeRecursive (Suc (Suc (Suc 0))) 0 three_levels) 0 = Some None"
    "registry_of (freeRecursive (Suc (Suc (Suc 0))) 0 three_levels) (Suc 0) = Some None"
    "registry_of (freeRecursive (Suc (Suc (Suc 0))) 0 three_levels) 2 = Some None"
    by (simp_all only: w'(1) registry_of_Done w'(2,3,4) returned.simps)
  from freeRecursive_frees_whole_tree[OF three_levels_b_freed_facts(1) h(2)]
  have "freeRecursive (Suc (Suc (Suc 0))) (rootOf chain_shape) three_levels_b_freed =
           forEach free (postorder chain_shape) three_levels_b_freed"
    by blast
  then have e: "freeRecursive (Suc (Suc (Suc 0))) 0 three_levels_b_freed =
           forEach free [2, Suc 0, 0] three_levels_b_freed"
    unfolding chain_shape_facts .
  from free_live[OF three_levels_b_freed_facts(2)] obtain w2 where
    w2: "free 2 three_levels_b_freed = Done w2"
        "instanceCache w2 = (instanceCache three_levels_b_freed)(2 := None)"
        "dom (styles (tree w2)) = dom (styles (tree three_levels_b_freed)) - {2}" by blast
  have dead: "Suc 0 \<notin> dom (styles (tree w2))"
    using three_levels_b_freed_facts(3) w2(3) by simp
  have r: "forEach free [2, Suc 0, 0] three_levels_b_freed = Threw InvalidNode w2"
    by (simp add: w2(1) free_dead[OF dead])
  have p: "thrown (freeRecursive (Suc (Suc (Suc 0))) 0 three_levels_b_freed) = Some InvalidNode"
    "registry_of (freeRecursive (Suc (Suc (Suc 0))) 0 three_levels_b_freed) 2 = Some None"
    "registry_of (freeRecursive (Suc (Suc (Suc 0))) 0 three_levels_b_freed) 0 = Some (Some 0)"
    unfolding e r using three_levels_b_freed_facts(4)
    by (simp_all add: registry_of_Threw getNodeById_def w2(2))
  from h g three_levels_facts(6,7,8) q three_levels_b_freed_facts(1,4,5) p show ?thesis by blast
qed

section \<open>Style-mutating operations\<close>



























section \<open>Dirtied callback\<close>




section \<open>Dirty propagation\<close>
















end
